theory Spec2Isabelle
  imports Complex_Main "HOL-Library.Word" "HOL-Library.Sublist" "HOL-Library.AList"
begin

section \<open>Data model of the redo meta manager\<close>

text \<open>
  Timestamps are Go \<open>uint64\<close> values (\<open>model.Ts\<close>). Paths are strings, file
  contents are byte strings.
\<close>

type_synonym Ts = "64 word"
type_synonym bytes = string

record ChangeFeedID =
  Namespace :: string
  ID :: string

record LogMeta =
  CheckpointTs :: Ts
  ResolvedTs :: Ts

text \<open>
  Modelled from the spec: \<open>statefulRts\<close> (the spec's StatefulTs), which is declared
  elsewhere in package \<open>redo\<close>. It holds an \<open>unflushed\<close> and a
  \<open>flushed\<close> timestamp; \<open>checkAndSetUnflushed v\<close> returns false and makes no change
  when \<open>v < unflushed\<close>, and stores \<open>v\<close> otherwise; \<open>setFlushed\<close> stores the
  flushed value; the getters read the two fields.
\<close>

record statefulRts =
  flushed :: Ts
  unflushed :: Ts

definition getFlushed :: "statefulRts \<Rightarrow> Ts" where
  "getFlushed s = flushed s"

definition getUnflushed :: "statefulRts \<Rightarrow> Ts" where
  "getUnflushed s = unflushed s"

definition checkAndSetUnflushed :: "statefulRts \<Rightarrow> Ts \<Rightarrow> bool \<times> statefulRts" where
  "checkAndSetUnflushed s v =
     (if v < unflushed s then (False, s) else (True, s\<lparr>unflushed := v\<rparr>))"

definition setFlushed :: "statefulRts \<Rightarrow> Ts \<Rightarrow> statefulRts" where
  "setFlushed s v = s\<lparr>flushed := v\<rparr>"

subsection \<open>External storage\<close>

text \<open>
  Modelled from the spec: the external storage (\<open>storage.ExternalStorage\<close>, the spec's
  MetaStore), of which the manager only calls the interface. A store is the list of its objects (path and
  content, one entry per path) together with a script of injected outcomes: every call of
  the storage API consumes the head of the script; \<open>Some e\<close> makes that call fail with
  \<open>e\<close> and no effect, \<open>None\<close> (or an exhausted script) lets the call run. Reading or
  deleting a missing object reports the distinguishable not-found condition; when the
  script makes a read or a delete report not-found, the object has gone meanwhile (another
  party removed it), so that not-found is never reported of an object that is there.
\<close>

datatype storage_error = NotExist | IOFailure

datatype storage_call =
    CallWriteFile string bytes
  | CallReadFile string
  | CallDeleteFile string
  | CallFileExists string
  | CallWalkDir

text \<open>
  \<open>trace\<close> records, oldest first, every call made on the store with its error result
  (\<open>None\<close> for success); it is what the ordering properties below are stated on.
\<close>

record ExternalStorage =
  files :: "(string \<times> bytes) list"
  faults :: "storage_error option list"
  trace :: "(storage_call \<times> storage_error option) list"

definition called :: "ExternalStorage \<Rightarrow> storage_call \<Rightarrow> storage_error option \<Rightarrow> ExternalStorage" where
  "called st c r = st\<lparr>trace := trace st @ [(c, r)]\<rparr>"

definition next_fault :: "ExternalStorage \<Rightarrow> storage_error option \<times> ExternalStorage" where
  "next_fault st =
     (case faults st of
        [] \<Rightarrow> (None, st)
      | f # fs \<Rightarrow> (f, st\<lparr>faults := fs\<rparr>))"

definition WriteFile :: "ExternalStorage \<Rightarrow> string \<Rightarrow> bytes \<Rightarrow> storage_error option \<times> ExternalStorage" where
  "WriteFile st path data =
     (case next_fault st of
        (Some e, st') \<Rightarrow> (Some e, called st' (CallWriteFile path data) (Some e))
      | (None, st') \<Rightarrow>
          (None, called (st'\<lparr>files := AList.update path data (files st')\<rparr>)
                   (CallWriteFile path data) None))"

definition ReadFile :: "ExternalStorage \<Rightarrow> string \<Rightarrow> (storage_error + bytes) \<times> ExternalStorage" where
  "ReadFile st path =
     (case next_fault st of
        (Some NotExist, st') \<Rightarrow>
          (Inl NotExist, called (st'\<lparr>files := AList.delete path (files st')\<rparr>)
                           (CallReadFile path) (Some NotExist))
      | (Some e, st') \<Rightarrow> (Inl e, called st' (CallReadFile path) (Some e))
      | (None, st') \<Rightarrow>
          (case map_of (files st') path of
             None \<Rightarrow> (Inl NotExist, called st' (CallReadFile path) (Some NotExist))
           | Some data \<Rightarrow> (Inr data, called st' (CallReadFile path) None)))"

definition DeleteFile :: "ExternalStorage \<Rightarrow> string \<Rightarrow> storage_error option \<times> ExternalStorage" where
  "DeleteFile st path =
     (case next_fault st of
        (Some NotExist, st') \<Rightarrow>
          (Some NotExist, called (st'\<lparr>files := AList.delete path (files st')\<rparr>)
                            (CallDeleteFile path) (Some NotExist))
      | (Some e, st') \<Rightarrow> (Some e, called st' (CallDeleteFile path) (Some e))
      | (None, st') \<Rightarrow>
          (case map_of (files st') path of
             None \<Rightarrow> (Some NotExist, called st' (CallDeleteFile path) (Some NotExist))
           | Some _ \<Rightarrow>
               (None, called (st'\<lparr>files := AList.delete path (files st')\<rparr>)
                        (CallDeleteFile path) None)))"

definition FileExists :: "ExternalStorage \<Rightarrow> string \<Rightarrow> (storage_error + bool) \<times> ExternalStorage" where
  "FileExists st path =
     (case next_fault st of
        (Some e, st') \<Rightarrow> (Inl e, called st' (CallFileExists path) (Some e))
      | (None, st') \<Rightarrow>
          (Inr (map_of (files st') path \<noteq> None), called st' (CallFileExists path) None))"

text \<open>\<open>WalkDir\<close> hands the callback the names present when the walk starts.\<close>

definition WalkDir :: "ExternalStorage \<Rightarrow> (storage_error + string list) \<times> ExternalStorage" where
  "WalkDir st =
     (case next_fault st of
        (Some e, st') \<Rightarrow> (Inl e, called st' CallWalkDir (Some e))
      | (None, st') \<Rightarrow> (Inr (map fst (files st')), called st' CallWalkDir None))"

definition IsNotExistInExtStorage :: "storage_error \<Rightarrow> bool" where
  "IsNotExistInExtStorage e = (e = NotExist)"

subsection \<open>Errors, log output and the manager\<close>

datatype error =
    ErrExternalStorageAPI storage_error
  | ErrMarshalFailed
  | ErrUnmarshal
  | ErrStorage storage_error
  | ErrContext
  | ErrRedoMetaInitialize error

text \<open>A call ends with \<open>nil\<close>, with an error, or in \<open>log.Panic\<close>.\<close>

datatype outcome = Nil | Err error | Panic

datatype log_entry =
    WarnRegressedResolvedTs Ts Ts
  | WarnRegressedCheckpointTs Ts Ts

text \<open>
  The generated msgpack codec of \<open>LogMeta\<close> and \<open>redo.ParseLogFileName\<close> are
  declared in other packages; they are parameters of the model. \<open>None\<close> is the error
  return. \<open>ParseLogFileName\<close> returns the maxCommitTs and the file type that a name
  encodes.
\<close>

record externals =
  MarshalMsg :: "LogMeta \<Rightarrow> bytes option"
  UnmarshalMsg :: "bytes \<Rightarrow> LogMeta option"
  ParseLogFileName :: "string \<Rightarrow> (Ts \<times> string) option"

text \<open>
  The manager. \<open>extStorage = None\<close> is the nil storage of a disabled or blackhole
  manager. The uuid generator is a sequence of strings and the number already drawn.
  \<open>logs\<close> collects what the manager writes to the log. The flush-time bookkeeping and
  the metrics are left out.
\<close>

record metaManager =
  captureID :: string
  changeFeedID :: ChangeFeedID
  enabled :: bool
  metaCheckpointTs :: statefulRts
  metaResolvedTs :: statefulRts
  extStorage :: "ExternalStorage option"
  uuidGenerator :: "nat \<Rightarrow> string"
  uuidDrawn :: nat
  preMetaFile :: string
  logs :: "log_entry list"

section \<open>Operations\<close>

definition UpdateMeta :: "metaManager \<Rightarrow> Ts \<Rightarrow> Ts \<Rightarrow> metaManager" where
  "UpdateMeta m checkpointTs resolvedTs =
     (let (ok1, rts) = checkAndSetUnflushed (metaResolvedTs m) resolvedTs;
          m1 = m\<lparr>metaResolvedTs := rts\<rparr>;
          m2 = (if \<not> ok1
                then m1\<lparr>logs := logs m1 @
                       [WarnRegressedResolvedTs (getFlushed (metaResolvedTs m1)) resolvedTs]\<rparr>
                else m1);
          (ok2, cts) = checkAndSetUnflushed (metaCheckpointTs m2) checkpointTs;
          m3 = m2\<lparr>metaCheckpointTs := cts\<rparr>
      in if \<not> ok2
         then m3\<lparr>logs := logs m3 @
                [WarnRegressedCheckpointTs (getFlushed (metaCheckpointTs m3)) checkpointTs]\<rparr>
         else m3)"

definition GetFlushedMeta :: "metaManager \<Rightarrow> LogMeta" where
  "GetFlushedMeta m =
     (let checkpointTs = getFlushed (metaCheckpointTs m);
          resolvedTs = getFlushed (metaResolvedTs m)
      in \<lparr>CheckpointTs = checkpointTs, ResolvedTs = resolvedTs\<rparr>)"

subsection \<open>Strings and file names\<close>

text \<open>Go's \<open>strings.Contains\<close>, \<open>strings.HasSuffix\<close> and \<open>filepath.Ext\<close>.\<close>

fun Contains :: "string \<Rightarrow> string \<Rightarrow> bool" where
  "Contains [] substr = (substr = [])"
| "Contains (c # cs) substr = (prefix substr (c # cs) \<or> Contains cs substr)"

definition HasSuffix :: "string \<Rightarrow> string \<Rightarrow> bool" where
  "HasSuffix s suf = prefix (rev suf) (rev s)"

text \<open>
  \<open>filepath.Ext\<close> scans from the end of the path up to the last separator and returns
  the suffix that starts at the first dot it meets, or the empty string.
\<close>

fun Ext_scan :: "string \<Rightarrow> string \<Rightarrow> string" where
  "Ext_scan [] acc = []"
| "Ext_scan (c # cs) acc =
     (if c = CHR ''/'' then []
      else if c = CHR ''.'' then c # acc
      else Ext_scan cs (c # acc))"

definition Ext :: "string \<Rightarrow> string" where
  "Ext path = Ext_scan (rev path) []"

text \<open>
  Modelled from the spec: the constants of the packages \<open>redo\<close> and \<open>model\<close> that
  the manager uses: the extensions \<open>.log\<close> and \<open>.meta\<close>, the file
  types \<open>row\<close>, \<open>ddl\<close> and \<open>meta\<close>, the default namespace \<open>default\<close>, and the
  meta file name \<open><capture>_<namespace>_<feed>_meta_<uuid>.meta\<close>.
\<close>

definition LogEXT :: string where "LogEXT = ''.log''"
definition MetaEXT :: string where "MetaEXT = ''.meta''"
definition RedoRowLogFileType :: string where "RedoRowLogFileType = ''row''"
definition RedoDDLLogFileType :: string where "RedoDDLLogFileType = ''ddl''"
definition RedoMetaFileType :: string where "RedoMetaFileType = ''meta''"
definition DefaultNamespace :: string where "DefaultNamespace = ''default''"

definition getMetafileName :: "string \<Rightarrow> ChangeFeedID \<Rightarrow> string \<Rightarrow> string" where
  "getMetafileName capture cf uuid =
     capture @ ''_'' @ Namespace cf @ ''_'' @ ID cf @ ''_'' @ RedoMetaFileType @ ''_'' @ uuid @ MetaEXT"

definition getChangefeedMatcher :: "ChangeFeedID \<Rightarrow> string" where
  "getChangefeedMatcher cf =
     (if Namespace cf = ''default'' then ''_'' @ ID cf @ ''_''
      else ''_'' @ Namespace cf @ ''_'' @ ID cf @ ''_'')"

definition getDeletedChangefeedMarker :: "ChangeFeedID \<Rightarrow> string" where
  "getDeletedChangefeedMarker cf =
     (if Namespace cf = DefaultNamespace then ''delete_'' @ ID cf
      else ''delete_'' @ Namespace cf @ ''_'' @ ID cf)"

subsection \<open>Sweeping the store\<close>

text \<open>
  Modelled from the spec: \<open>util.DeleteFilesInExtStorage\<close> and \<open>util.RemoveFilesIf\<close>
  (the spec's \<open>removeFilesIf(predicate)\<close>), which are declared in package \<open>util\<close>.
  The sweep walks
  the store, collects the paths the predicate accepts and deletes them; a storage error
  ends it with \<open>ErrExternalStorageAPI\<close>, a file already gone is not an error. The
  predicate may end in \<open>log.Panic\<close> (\<open>None\<close>), which ends the sweep before any
  deletion.
\<close>

fun DeleteFilesInExtStorage :: "ExternalStorage \<Rightarrow> string list \<Rightarrow> outcome \<times> ExternalStorage" where
  "DeleteFilesInExtStorage st [] = (Nil, st)"
| "DeleteFilesInExtStorage st (name # rest) =
     (case DeleteFile st name of
        (Some e, st') \<Rightarrow>
          if \<not> IsNotExistInExtStorage e then (Err (ErrExternalStorageAPI e), st')
          else DeleteFilesInExtStorage st' rest
      | (None, st') \<Rightarrow> DeleteFilesInExtStorage st' rest)"

fun collectFiles :: "(string \<Rightarrow> bool option) \<Rightarrow> string list \<Rightarrow> string list option" where
  "collectFiles pred [] = Some []"
| "collectFiles pred (path # rest) =
     (case pred path of
        None \<Rightarrow> None
      | Some b \<Rightarrow>
          (case collectFiles pred rest of
             None \<Rightarrow> None
           | Some toRemoveFiles \<Rightarrow> Some (if b then path # toRemoveFiles else toRemoveFiles)))"

definition RemoveFilesIf :: "ExternalStorage \<Rightarrow> (string \<Rightarrow> bool option) \<Rightarrow> outcome \<times> ExternalStorage" where
  "RemoveFilesIf st pred =
     (case WalkDir st of
        (Inl e, st') \<Rightarrow> (Err (ErrExternalStorageAPI e), st')
      | (Inr paths, st') \<Rightarrow>
          (case collectFiles pred paths of
             None \<Rightarrow> (Panic, st')
           | Some toRemoveFiles \<Rightarrow> DeleteFilesInExtStorage st' toRemoveFiles))"

subsection \<open>Flushing the meta\<close>

definition prepareForFlushMeta :: "metaManager \<Rightarrow> bool \<times> LogMeta" where
  "prepareForFlushMeta m =
     (let flushedMeta = \<lparr>CheckpointTs = getFlushed (metaCheckpointTs m),
                         ResolvedTs = getFlushed (metaResolvedTs m)\<rparr>;
          unflushedMeta = \<lparr>CheckpointTs = getUnflushed (metaCheckpointTs m),
                           ResolvedTs = getUnflushed (metaResolvedTs m)\<rparr>;
          hasChange = (CheckpointTs flushedMeta < CheckpointTs unflushedMeta \<or>
                       ResolvedTs flushedMeta < ResolvedTs unflushedMeta)
      in (hasChange, unflushedMeta))"

definition postFlushMeta :: "metaManager \<Rightarrow> LogMeta \<Rightarrow> metaManager" where
  "postFlushMeta m meta =
     (let m1 = m\<lparr>metaResolvedTs := setFlushed (metaResolvedTs m) (ResolvedTs meta)\<rparr>
      in m1\<lparr>metaCheckpointTs := setFlushed (metaCheckpointTs m1) (CheckpointTs meta)\<rparr>)"

text \<open>
  \<open>flush\<close>: marshal, draw a uuid for the new file name, write the new file, then delete
  the previous one. Calling a method of the nil storage is a panic.
\<close>

definition flush :: "externals \<Rightarrow> metaManager \<Rightarrow> LogMeta \<Rightarrow> outcome \<times> metaManager" where
  "flush ext m meta =
     (case MarshalMsg ext meta of
        None \<Rightarrow> (Err ErrMarshalFailed, m)
      | Some data \<Rightarrow>
          (let metaFile = getMetafileName (captureID m) (changeFeedID m)
                            (uuidGenerator m (uuidDrawn m));
               m1 = m\<lparr>uuidDrawn := Suc (uuidDrawn m)\<rparr>
           in case extStorage m1 of
                None \<Rightarrow> (Panic, m1)
              | Some st \<Rightarrow>
                  (case WriteFile st metaFile data of
                     (Some e, st1) \<Rightarrow> (Err (ErrExternalStorageAPI e), m1\<lparr>extStorage := Some st1\<rparr>)
                   | (None, st1) \<Rightarrow>
                       (let m2 = m1\<lparr>extStorage := Some st1\<rparr>
                        in if preMetaFile m2 \<noteq> []
                           then if preMetaFile m2 = metaFile then (Nil, m2)
                                else (case DeleteFile st1 (preMetaFile m2) of
                                        (Some e, st2) \<Rightarrow>
                                          if \<not> IsNotExistInExtStorage e
                                          then (Err (ErrExternalStorageAPI e),
                                                m2\<lparr>extStorage := Some st2\<rparr>)
                                          else (Nil, m2\<lparr>extStorage := Some st2,
                                                       preMetaFile := metaFile\<rparr>)
                                      | (None, st2) \<Rightarrow>
                                          (Nil, m2\<lparr>extStorage := Some st2,
                                                  preMetaFile := metaFile\<rparr>))
                           else (Nil, m2\<lparr>preMetaFile := metaFile\<rparr>)))))"

definition maybeFlushMeta :: "externals \<Rightarrow> metaManager \<Rightarrow> outcome \<times> metaManager" where
  "maybeFlushMeta ext m =
     (let (hasChange, unflushedMeta) = prepareForFlushMeta m
      in if \<not> hasChange then (Nil, m)
         else (case flush ext m unflushedMeta of
                 (Nil, m') \<Rightarrow> (Nil, postFlushMeta m' unflushedMeta)
               | (r, m') \<Rightarrow> (r, m')))"

subsection \<open>Initialisation\<close>

text \<open>
  Modelled from the spec: \<open>common.ParseMeta\<close>, which is declared in package
  \<open>common\<close>. It reduces
  the collected metas to \<open>checkpointTs = max(all.checkpointTs)\<close> and
  \<open>resolvedTs = max(all.resolvedTs, checkpointTs)\<close>, starting from the zero values of
  the two \<open>uint64\<close> variables it is handed.
\<close>

definition ParseMeta :: "LogMeta list \<Rightarrow> Ts \<times> Ts" where
  "ParseMeta metas =
     (let checkpointTs = fold max (map CheckpointTs metas) 0;
          resolvedTs = max (fold max (map ResolvedTs metas) 0) checkpointTs
      in (checkpointTs, resolvedTs))"

text \<open>
  The callback of the walk in \<open>initMeta\<close>, run over the names of the walk: every path
  that ends in \<open>.meta\<close> is queued for removal and read; a non-empty content is decoded
  and appended to the metas.
\<close>

fun initMeta_walk ::
  "externals \<Rightarrow> ExternalStorage \<Rightarrow> string list \<Rightarrow> LogMeta list \<Rightarrow> string list
     \<Rightarrow> (error + LogMeta list \<times> string list) \<times> ExternalStorage" where
  "initMeta_walk ext st [] metas toRemoveMetaFiles = (Inr (metas, toRemoveMetaFiles), st)"
| "initMeta_walk ext st (path # rest) metas toRemoveMetaFiles =
     (if \<not> HasSuffix path MetaEXT then initMeta_walk ext st rest metas toRemoveMetaFiles
      else (case ReadFile st path of
              (Inl e, st') \<Rightarrow>
                if \<not> IsNotExistInExtStorage e then (Inl (ErrStorage e), st')
                else initMeta_walk ext st' rest metas (toRemoveMetaFiles @ [path])
            | (Inr data, st') \<Rightarrow>
                if length data \<noteq> 0
                then (case UnmarshalMsg ext data of
                        None \<Rightarrow> (Inl ErrUnmarshal, st')
                      | Some meta \<Rightarrow>
                          initMeta_walk ext st' rest (metas @ [meta]) (toRemoveMetaFiles @ [path]))
                else initMeta_walk ext st' rest metas (toRemoveMetaFiles @ [path])))"

text \<open>\<open>ctxDone\<close> says whether the context is already cancelled when \<open>initMeta\<close> starts.\<close>

definition initMeta :: "externals \<Rightarrow> bool \<Rightarrow> metaManager \<Rightarrow> Ts \<Rightarrow> outcome \<times> metaManager" where
  "initMeta ext ctxDone m startTs =
     (if ctxDone then (Err ErrContext, m)
      else case extStorage m of
        None \<Rightarrow> (Panic, m)
      | Some st \<Rightarrow>
          (case WalkDir st of
             (Inl e, st1) \<Rightarrow>
               (Err (ErrRedoMetaInitialize (ErrStorage e)), m\<lparr>extStorage := Some st1\<rparr>)
           | (Inr paths, st1) \<Rightarrow>
               (case initMeta_walk ext st1 paths
                       [\<lparr>CheckpointTs = startTs, ResolvedTs = startTs\<rparr>] [] of
                  (Inl e, st2) \<Rightarrow> (Err (ErrRedoMetaInitialize e), m\<lparr>extStorage := Some st2\<rparr>)
                | (Inr (metas, toRemoveMetaFiles), st2) \<Rightarrow>
                    (let (checkpointTs, resolvedTs) = ParseMeta metas
                     in if checkpointTs = 0 \<or> resolvedTs = 0
                        then (Panic, m\<lparr>extStorage := Some st2\<rparr>)
                        else
                          (let m1 = m\<lparr>extStorage := Some st2,
                                       metaResolvedTs := (metaResolvedTs m)\<lparr>unflushed := resolvedTs\<rparr>,
                                       metaCheckpointTs := (metaCheckpointTs m)\<lparr>unflushed := checkpointTs\<rparr>\<rparr>
                           in case maybeFlushMeta ext m1 of
                                (Err e, m2) \<Rightarrow> (Err (ErrRedoMetaInitialize e), m2)
                              | (Panic, m2) \<Rightarrow> (Panic, m2)
                              | (Nil, m2) \<Rightarrow>
                                  (case extStorage m2 of
                                     None \<Rightarrow> (Panic, m2)
                                   | Some st3 \<Rightarrow>
                                       (let (r, st4) = DeleteFilesInExtStorage st3 toRemoveMetaFiles
                                        in (r, m2\<lparr>extStorage := Some st4\<rparr>))))))))"

subsection \<open>Deleting a changefeed and recovering from an interrupted deletion\<close>

definition sweepPred :: "string \<Rightarrow> string \<Rightarrow> string \<Rightarrow> bool option" where
  "sweepPred deleteMarker changefeedMatcher path =
     (if path = deleteMarker \<or> \<not> Contains path changefeedMatcher then Some False
      else Some True)"

definition preCleanupExtStorage :: "metaManager \<Rightarrow> outcome \<times> metaManager" where
  "preCleanupExtStorage m =
     (case extStorage m of
        None \<Rightarrow> (Panic, m)
      | Some st \<Rightarrow>
          (let deleteMarker = getDeletedChangefeedMarker (changeFeedID m)
           in case FileExists st deleteMarker of
                (Inl e, st1) \<Rightarrow> (Err (ErrExternalStorageAPI e), m\<lparr>extStorage := Some st1\<rparr>)
              | (Inr ret, st1) \<Rightarrow>
                  if \<not> ret then (Nil, m\<lparr>extStorage := Some st1\<rparr>)
                  else
                    (let changefeedMatcher = getChangefeedMatcher (changeFeedID m)
                     in case RemoveFilesIf st1 (sweepPred deleteMarker changefeedMatcher) of
                          (Nil, st2) \<Rightarrow>
                            (case DeleteFile st2 deleteMarker of
                               (Some e, st3) \<Rightarrow>
                                 if \<not> IsNotExistInExtStorage e
                                 then (Err (ErrExternalStorageAPI e), m\<lparr>extStorage := Some st3\<rparr>)
                                 else (Nil, m\<lparr>extStorage := Some st3\<rparr>)
                             | (None, st3) \<Rightarrow> (Nil, m\<lparr>extStorage := Some st3\<rparr>))
                        | (r, st2) \<Rightarrow> (r, m\<lparr>extStorage := Some st2\<rparr>))))"

definition deleteAllLogs :: "metaManager \<Rightarrow> outcome \<times> metaManager" where
  "deleteAllLogs m =
     (case extStorage m of
        None \<Rightarrow> (Nil, m)
      | Some st \<Rightarrow>
          (let deleteMarker = getDeletedChangefeedMarker (changeFeedID m)
           in case WriteFile st deleteMarker ''D'' of
                (Some e, st1) \<Rightarrow> (Err (ErrExternalStorageAPI e), m\<lparr>extStorage := Some st1\<rparr>)
              | (None, st1) \<Rightarrow>
                  (let changefeedMatcher = getChangefeedMatcher (changeFeedID m);
                       (r, st2) = RemoveFilesIf st1 (sweepPred deleteMarker changefeedMatcher)
                   in (r, m\<lparr>extStorage := Some st2\<rparr>))))"

text \<open>\<open>Cleanup\<close> drops the metric labels of the feed and deletes all logs.\<close>

definition Cleanup :: "metaManager \<Rightarrow> outcome \<times> metaManager" where
  "Cleanup m = deleteAllLogs m"

subsection \<open>Garbage collection\<close>

definition shouldRemoved :: "externals \<Rightarrow> metaManager \<Rightarrow> string \<Rightarrow> Ts \<Rightarrow> bool option" where
  "shouldRemoved ext m path checkPointTs =
     (let changefeedMatcher = getChangefeedMatcher (changeFeedID m)
      in if \<not> Contains path changefeedMatcher then Some False
         else if Ext path \<noteq> LogEXT then Some False
         else (case ParseLogFileName ext path of
                 None \<Rightarrow> Some False
               | Some (commitTs, fileType) \<Rightarrow>
                   if fileType \<noteq> RedoDDLLogFileType \<and> fileType \<noteq> RedoRowLogFileType
                   then None
                   else Some (commitTs < checkPointTs)))"

text \<open>
  One tick of \<open>bgGC\<close>: \<open>preCkpt\<close> is the loop's local variable; the tick returns its
  new value.
\<close>

definition bgGC_tick :: "externals \<Rightarrow> metaManager \<Rightarrow> Ts \<Rightarrow> outcome \<times> metaManager \<times> Ts" where
  "bgGC_tick ext m preCkpt =
     (let ckpt = getFlushed (metaCheckpointTs m)
      in if ckpt = preCkpt then (Nil, m, preCkpt)
         else (case extStorage m of
                 None \<Rightarrow> (Panic, m, ckpt)
               | Some st \<Rightarrow>
                   (let (r, st') = RemoveFilesIf st (\<lambda>path. shouldRemoved ext m path ckpt)
                    in (r, m\<lparr>extStorage := Some st'\<rparr>, ckpt))))"

subsection \<open>Construction and the life of a manager\<close>

text \<open>
  \<open>NewMetaManager\<close> resolves the consistent config to one of three managers: a disabled
  one (no config, or level none), an enabled one without storage (blackhole scheme), or
  an enabled one on the external storage of the URL. The resolution itself (URL parsing,
  opening the storage, and their error returns, which yield no manager) is represented
  by its result.
\<close>

datatype redo_storage = Disabled | Blackhole | External ExternalStorage

definition zeroManager :: metaManager where
  "zeroManager =
     \<lparr>captureID = [], changeFeedID = \<lparr>Namespace = [], ID = []\<rparr>, enabled = False,
      metaCheckpointTs = \<lparr>flushed = 0, unflushed = 0\<rparr>,
      metaResolvedTs = \<lparr>flushed = 0, unflushed = 0\<rparr>,
      extStorage = None, uuidGenerator = (\<lambda>_. []), uuidDrawn = 0,
      preMetaFile = [], logs = []\<rparr>"

definition NewMetaManager ::
  "string \<Rightarrow> ChangeFeedID \<Rightarrow> (nat \<Rightarrow> string) \<Rightarrow> redo_storage \<Rightarrow> metaManager" where
  "NewMetaManager capture cf gen cfg =
     (case cfg of
        Disabled \<Rightarrow> zeroManager
      | Blackhole \<Rightarrow>
          zeroManager\<lparr>captureID := capture, changeFeedID := cf, uuidGenerator := gen,
                      enabled := True\<rparr>
      | External st \<Rightarrow>
          zeroManager\<lparr>captureID := capture, changeFeedID := cf, uuidGenerator := gen,
                      enabled := True, extStorage := Some st\<rparr>)"

definition NewMetaManagerWithInit ::
  "externals \<Rightarrow> bool \<Rightarrow> string \<Rightarrow> ChangeFeedID \<Rightarrow> (nat \<Rightarrow> string) \<Rightarrow> redo_storage \<Rightarrow> Ts
     \<Rightarrow> outcome \<times> metaManager" where
  "NewMetaManagerWithInit ext ctxDone capture cf gen cfg startTs =
     (let m = NewMetaManager capture cf gen cfg
      in if extStorage m \<noteq> None
         then (case preCleanupExtStorage m of
                 (Nil, m1) \<Rightarrow> initMeta ext ctxDone m1 startTs
               | (r, m1) \<Rightarrow> (r, m1))
         else (Nil, m))"

text \<open>
  What happens to a manager after its construction: the owner calls \<open>UpdateMeta\<close>, and
  \<open>bgFlushMeta\<close> calls \<open>maybeFlushMeta\<close> at every tick (\<open>Run\<close> starts no loop
  when the storage is nil). \<open>GetFlushedMeta\<close> may observe the manager between any two
  of these.
\<close>

datatype event = CallUpdateMeta Ts Ts | FlushTick

fun step :: "externals \<Rightarrow> metaManager \<Rightarrow> event \<Rightarrow> metaManager" where
  "step ext m (CallUpdateMeta checkpointTs resolvedTs) = UpdateMeta m checkpointTs resolvedTs"
| "step ext m FlushTick = (if extStorage m = None then m else snd (maybeFlushMeta ext m))"

definition run_events :: "externals \<Rightarrow> metaManager \<Rightarrow> event list \<Rightarrow> metaManager" where
  "run_events ext m evs = foldl (step ext) m evs"

section \<open>The capture's run loop\<close>

text \<open>
  A Go error value is a root cause under any number of stack traces added by
  \<open>errors.Trace\<close>; \<open>errors.Cause\<close> strips them. A normalized error is identified by
  its code, and \<open>Equal\<close> compares the cause of its argument with the receiver.
\<close>

datatype go_error =
    ContextCanceled
  | ContextDeadlineExceeded
  | Normalized string
  | Plain string
  | Traced go_error

fun Cause :: "go_error \<Rightarrow> go_error" where
  "Cause (Traced e) = Cause e"
| "Cause e = e"

definition Trace :: "go_error option \<Rightarrow> go_error option" where
  "Trace err = map_option Traced err"

definition ErrCaptureSuicide :: go_error where
  "ErrCaptureSuicide = Normalized ''ErrCaptureSuicide''"

definition Equal :: "go_error \<Rightarrow> go_error option \<Rightarrow> bool" where
  "Equal e err = (case err of None \<Rightarrow> False | Some x \<Rightarrow> Cause x = e)"

text \<open>
  The limiter of \<open>golang.org/x/time/rate\<close>, of which \<open>Run\<close> calls \<open>NewLimiter\<close>
  and \<open>Wait\<close>, after the documentation of that package: a token bucket of size
  \<open>burst\<close>, full when new and refilled at \<open>limit\<close> tokens per second. \<open>tokens\<close>
  is the content of the bucket at the time \<open>lastTime\<close>, all times in seconds. A call
  of \<open>Wait\<close> at the time \<open>t\<close> takes one token, into debt when the bucket is empty,
  and returns at the time by which the token that it took is there.
\<close>

record Limiter =
  limit :: real
  burst :: nat
  tokens :: real
  lastTime :: real

definition NewLimiter :: "real \<Rightarrow> nat \<Rightarrow> real \<Rightarrow> Limiter" where
  "NewLimiter r b now = \<lparr>limit = r, burst = b, tokens = real b, lastTime = now\<rparr>"

definition advance :: "Limiter \<Rightarrow> real \<Rightarrow> real" where
  "advance rl t = min (real (burst rl)) (tokens rl + (t - lastTime rl) * limit rl)"

definition Wait :: "Limiter \<Rightarrow> real \<Rightarrow> real \<times> Limiter" where
  "Wait rl t =
     (let tokens' = advance rl t - 1;
          waitDuration = (if tokens' < 0 then - tokens' / limit rl else 0)
      in (t + waitDuration, rl\<lparr>tokens := tokens', lastTime := t\<rparr>))"

text \<open>
  One pass of the loop of \<open>Run\<close> meets four things from outside: whether the parent
  context is done, whether the context ends the wait of \<open>rl.Wait\<close> with an error, what
  \<open>c.run\<close> returns, and how long \<open>c.run\<close> takes. The loop is run on a script of
  these, from the limiter \<open>rl\<close> and the time \<open>now\<close>. It yields what \<open>Run\<close>
  returns (\<open>None\<close> means that the script ended with the loop still going, \<open>Some r\<close>
  that \<open>Run\<close> returned \<open>r\<close>) and the times at which it entered \<open>c.run\<close>, which
  resets the capture and runs it.
\<close>

record pass =
  parentDone :: bool
  waitResult :: "go_error option"
  runResult :: "go_error option"
  runTime :: real

definition recoverable :: "go_error option \<Rightarrow> bool" where
  "recoverable err =
     (Equal ErrCaptureSuicide err \<or>
      Some ContextCanceled = map_option Cause err \<or>
      Some ContextDeadlineExceeded = map_option Cause err)"

fun Run_loop :: "Limiter \<Rightarrow> real \<Rightarrow> pass list \<Rightarrow> go_error option option \<times> real list" where
  "Run_loop rl now [] = (None, [])"
| "Run_loop rl now (p # rest) =
     (if parentDone p then (Some None, [])
      else (case waitResult p of
              Some err \<Rightarrow>
                (if Cause err = ContextCanceled then Some None else Some (Trace (Some err)), [])
            | None \<Rightarrow>
                (let (t, rl') = Wait rl now;
                     err = runResult p
                 in if recoverable err
                    then (let (r, ts) = Run_loop rl' (t + runTime p) rest in (r, t # ts))
                    else (Some (Trace err), [t]))))"

text \<open>
  \<open>Run_at t0\<close> is \<open>Run\<close> entered at the time \<open>t0\<close>: it creates its limiter and
  goes into the loop. \<open>Run\<close> is what it returns, which does not depend on the clock.
\<close>

definition Run_at :: "real \<Rightarrow> pass list \<Rightarrow> go_error option option \<times> real list" where
  "Run_at t0 script = Run_loop (NewLimiter (5 / 100) 2 t0) t0 script"

definition Run :: "pass list \<Rightarrow> go_error option option" where
  "Run script = fst (Run_at 0 script)"

section \<open>Invariants of the two timestamps\<close>

definition flushed_le_unflushed :: "metaManager \<Rightarrow> bool" where
  "flushed_le_unflushed m =
     (flushed (metaCheckpointTs m) \<le> unflushed (metaCheckpointTs m) \<and>
      flushed (metaResolvedTs m) \<le> unflushed (metaResolvedTs m))"

definition checkpoint_le_resolved :: "metaManager \<Rightarrow> bool" where
  "checkpoint_le_resolved m =
     (flushed (metaCheckpointTs m) \<le> flushed (metaResolvedTs m) \<and>
      unflushed (metaCheckpointTs m) \<le> unflushed (metaResolvedTs m))"

text \<open>A call of \<open>UpdateMeta\<close> whose checkpointTs is not above its resolvedTs.\<close>

definition ordered_args :: "event \<Rightarrow> bool" where
  "ordered_args ev =
     (case ev of
        CallUpdateMeta checkpointTs resolvedTs \<Rightarrow> checkpointTs \<le> resolvedTs
      | FlushTick \<Rightarrow> True)"

section \<open>Scenarios\<close>

text \<open>
  The scenarios run on the feed \<open>feed\<close> of the default namespace, owned by the capture
  \<open>cap\<close>, with a uuid generator that never repeats itself. The codec of the scenarios
  writes each timestamp as its 64 binary digits; the parser of log file names is the table
  of the names that the scenarios use.
\<close>

definition example_feed :: ChangeFeedID where
  "example_feed = \<lparr>Namespace = ''default'', ID = ''feed''\<rparr>"

definition example_uuid :: "nat \<Rightarrow> string" where
  "example_uuid n = ''uuid'' @ replicate n (CHR ''x'')"

definition example_encodeTs :: "Ts \<Rightarrow> bytes" where
  "example_encodeTs w = map (\<lambda>n. if bit w n then CHR ''1'' else CHR ''0'') [0..<64]"

definition example_decodeTs :: "bytes \<Rightarrow> Ts" where
  "example_decodeTs data = horner_sum of_bool 2 (map (\<lambda>c. c = CHR ''1'') data)"

definition example_encode :: "LogMeta \<Rightarrow> bytes" where
  "example_encode meta = example_encodeTs (CheckpointTs meta) @ example_encodeTs (ResolvedTs meta)"

definition example_decode :: "bytes \<Rightarrow> LogMeta option" where
  "example_decode data =
     (if length data = 128
      then Some \<lparr>CheckpointTs = example_decodeTs (take 64 data),
                 ResolvedTs = example_decodeTs (drop 64 data)\<rparr>
      else None)"

definition example_parse :: "string \<Rightarrow> (Ts \<times> string) option" where
  "example_parse path =
     (if path = ''cap_default_feed_row_90_uuid.log'' then Some (90, ''row'')
      else if path = ''cap_default_other_row_7_uuid.log'' then Some (7, ''row'')
      else if path = ''cap_default_feed_meta_uuid.meta'' then Some (0, ''meta'')
      else if path = ''cap_default_feed_ddl_100_uuid.log'' then Some (100, ''ddl'')
      else if path = ''cap_default_feed_row_110_uuid.log'' then Some (110, ''row'')
      else None)"

definition example_externals :: externals where
  "example_externals =
     \<lparr>MarshalMsg = (\<lambda>meta. Some (example_encode meta)),
      UnmarshalMsg = example_decode,
      ParseLogFileName = example_parse\<rparr>"

definition empty_store :: ExternalStorage where
  "empty_store = \<lparr>files = [], faults = [], trace = []\<rparr>"

text \<open>The manager that \<open>NewMetaManagerWithInit\<close> builds on the empty store at start 10.\<close>

definition example_manager :: metaManager where
  "example_manager =
     snd (NewMetaManagerWithInit example_externals False ''cap'' example_feed example_uuid
            (External empty_store) 10)"

text \<open>
  The same manager after \<open>UpdateMeta(15, 25)\<close>, on a store whose next call succeeds and
  whose call after that fails.
\<close>

definition flush_fault_manager :: metaManager where
  "flush_fault_manager =
     (UpdateMeta example_manager 15 25)
       \<lparr>extStorage :=
          map_option (\<lambda>st. st\<lparr>faults := [None, Some IOFailure]\<rparr>) (extStorage example_manager)\<rparr>"

text \<open>The manager of scenario S1 after its flush: both timestamps at \<open>(15, 25)\<close>.\<close>

definition S1_manager :: metaManager where
  "S1_manager =
     zeroManager\<lparr>enabled := True,
                 metaCheckpointTs := \<lparr>flushed = 15, unflushed = 15\<rparr>,
                 metaResolvedTs := \<lparr>flushed = 25, unflushed = 25\<rparr>\<rparr>"

text \<open>
  Two passes of the run loop, each over at once: one that ends in a suicide, one in a
  plain error.
\<close>

definition suicide_pass :: pass where
  "suicide_pass =
     \<lparr>parentDone = False, waitResult = None, runResult = Some (Traced ErrCaptureSuicide),
      runTime = 0\<rparr>"

definition fatal_pass :: pass where
  "fatal_pass =
     \<lparr>parentDone = False, waitResult = None, runResult = Some (Plain ''etcd is down''),
      runTime = 0\<rparr>"

text \<open>
  Scenario S5: three log files of the feed, at 90, 100 and 110, beside a log file of
  another feed at 7 and the meta file of the feed; the flushed checkpoint at 100.
\<close>

definition S5_store :: ExternalStorage where
  "S5_store =
     \<lparr>files = [(''cap_default_feed_row_90_uuid.log'', ''rows up to 90''),
               (''cap_default_other_row_7_uuid.log'', ''rows of another feed''),
               (''cap_default_feed_meta_uuid.meta'', ''meta''),
               (''cap_default_feed_ddl_100_uuid.log'', ''ddl at 100''),
               (''cap_default_feed_row_110_uuid.log'', ''rows up to 110'')],
      faults = [], trace = []\<rparr>"

definition S5_manager :: metaManager where
  "S5_manager =
     zeroManager\<lparr>captureID := ''cap'', changeFeedID := example_feed, enabled := True,
                 uuidGenerator := example_uuid,
                 metaCheckpointTs := \<lparr>flushed = 100, unflushed = 100\<rparr>,
                 metaResolvedTs := \<lparr>flushed = 120, unflushed = 120\<rparr>,
                 extStorage := Some S5_store\<rparr>"

text \<open>
  Scenario S4: the deletion marker, three files of the feed and one file of another feed;
  the last call on the store (the delete of the marker) reports not-found.
\<close>

definition S4_store :: ExternalStorage where
  "S4_store =
     \<lparr>files = [(''delete_feed'', ''D''),
               (''cap_default_feed_meta_uuid.meta'', ''meta''),
               (''cap_default_feed_row_90_uuid.log'', ''rows up to 90''),
               (''cap_default_other_row_7_uuid.log'', ''rows of another feed''),
               (''cap_default_feed_ddl_100_uuid.log'', ''ddl at 100'')],
      faults = [None, None, None, None, None, Some NotExist], trace = []\<rparr>"

definition S4_manager :: metaManager where
  "S4_manager = NewMetaManager ''cap'' example_feed example_uuid (External S4_store)"



text \<open>
  The manager of the empty store after \<open>UpdateMeta(15, 25)\<close>, when its previous meta file
  has gone from the store.
\<close>

definition flush_gone_manager :: metaManager where
  "flush_gone_manager = (UpdateMeta example_manager 15 25)\<lparr>extStorage := Some empty_store\<rparr>"

text \<open>A manager of the blackhole scheme: enabled, without storage.\<close>

definition blackhole_manager :: metaManager where
  "blackhole_manager = NewMetaManager ''cap'' example_feed example_uuid Blackhole"

text \<open>
  Two feeds on one root: the feed \<open>g\<close> of the namespace \<open>f\<close>, whose manager
  starts on the empty store, and the feed \<open>f\<close> of the default namespace, whose
  manager starts on the store that \<open>Cleanup\<close> of the first one leaves.
\<close>

definition fg_manager :: metaManager where
  "fg_manager =
     NewMetaManager ''cap'' \<lparr>Namespace = ''f'', ID = ''g''\<rparr> example_uuid (External empty_store)"

definition f_manager :: metaManager where
  "f_manager =
     NewMetaManager ''cap'' \<lparr>Namespace = ''default'', ID = ''f''\<rparr> example_uuid
       (case extStorage (snd (Cleanup fg_manager)) of
          None \<Rightarrow> Disabled
        | Some st \<Rightarrow> External st)"

text \<open>The manager of the feed of scenario S5 at a startup after its \<open>Cleanup\<close>.\<close>

definition S5_restart_manager :: metaManager where
  "S5_restart_manager =
     NewMetaManager ''cap'' example_feed example_uuid
       (case extStorage (snd (Cleanup S5_manager)) of
          None \<Rightarrow> Disabled
        | Some st \<Rightarrow> External st)"

section \<open>Properties\<close>

subsection \<open>UpdateMeta\<close>

lemma UpdateMeta_checkpoint:
  "metaCheckpointTs (UpdateMeta m c r) =
     (if c < unflushed (metaCheckpointTs m) then metaCheckpointTs m
      else (metaCheckpointTs m)\<lparr>unflushed := c\<rparr>)"
  by (simp add: UpdateMeta_def checkAndSetUnflushed_def Let_def)

lemma UpdateMeta_resolved:
  "metaResolvedTs (UpdateMeta m c r) =
     (if r < unflushed (metaResolvedTs m) then metaResolvedTs m
      else (metaResolvedTs m)\<lparr>unflushed := r\<rparr>)"
  by (simp add: UpdateMeta_def checkAndSetUnflushed_def Let_def)

lemma UpdateMeta_logs:
  "logs (UpdateMeta m c r) =
     logs m
     @ (if r < unflushed (metaResolvedTs m)
        then [WarnRegressedResolvedTs (flushed (metaResolvedTs m)) r] else [])
     @ (if c < unflushed (metaCheckpointTs m)
        then [WarnRegressedCheckpointTs (flushed (metaCheckpointTs m)) c] else [])"
  by (simp add: UpdateMeta_def checkAndSetUnflushed_def getFlushed_def Let_def)

text \<open>
  C3. \<open>UpdateMeta\<close> returns no error (it has none to return) and check-and-sets each
  field on its own: a checkpointTs below the unflushed checkpointTs leaves the checkpoint
  field as it was and logs a warning, whatever the resolvedTs argument is, and any other
  checkpointTs becomes the unflushed one; likewise for resolvedTs.
\<close>

theorem UpdateMeta_check_and_set:
  "(c < unflushed (metaCheckpointTs m) \<longrightarrow>
      metaCheckpointTs (UpdateMeta m c r) = metaCheckpointTs m \<and>
      WarnRegressedCheckpointTs (flushed (metaCheckpointTs m)) c \<in> set (logs (UpdateMeta m c r))) \<and>
   (\<not> c < unflushed (metaCheckpointTs m) \<longrightarrow>
      metaCheckpointTs (UpdateMeta m c r) = (metaCheckpointTs m)\<lparr>unflushed := c\<rparr>) \<and>
   (r < unflushed (metaResolvedTs m) \<longrightarrow>
      metaResolvedTs (UpdateMeta m c r) = metaResolvedTs m \<and>
      WarnRegressedResolvedTs (flushed (metaResolvedTs m)) r \<in> set (logs (UpdateMeta m c r))) \<and>
   (\<not> r < unflushed (metaResolvedTs m) \<longrightarrow>
      metaResolvedTs (UpdateMeta m c r) = (metaResolvedTs m)\<lparr>unflushed := r\<rparr>)"
  by (simp add: UpdateMeta_checkpoint UpdateMeta_resolved UpdateMeta_logs)

text \<open>Scenario S2: after \<open>(15, 25)\<close>, \<open>UpdateMeta(5, 30)\<close> keeps 15 and stores 30.\<close>

theorem UpdateMeta_check_and_set_witness:
  "(5 :: Ts) < unflushed (metaCheckpointTs S1_manager) \<and>
   \<not> (30 :: Ts) < unflushed (metaResolvedTs S1_manager) \<and>
   unflushed (metaCheckpointTs (UpdateMeta S1_manager 5 30)) = 15 \<and>
   unflushed (metaResolvedTs (UpdateMeta S1_manager 5 30)) = 30 \<and>
   WarnRegressedCheckpointTs 15 5 \<in> set (logs (UpdateMeta S1_manager 5 30))"
proof -
  have a: "(5 :: Ts) < unflushed (metaCheckpointTs S1_manager)"
    by (simp add: S1_manager_def zeroManager_def)
  have b: "\<not> (30 :: Ts) < unflushed (metaResolvedTs S1_manager)"
    by (simp add: S1_manager_def zeroManager_def)
  from UpdateMeta_check_and_set [of 5 S1_manager 30] a b show ?thesis
    by (simp add: S1_manager_def zeroManager_def)
qed

subsection \<open>Storage calls\<close>

lemma delete_absent: "map_of al k = None \<Longrightarrow> AList.delete k al = al"
  by (induction al) (auto split: if_splits)

lemma WriteFile_result:
  "\<exists>w st'. WriteFile st p d = (w, st') \<and> trace st' = trace st @ [(CallWriteFile p d, w)] \<and>
     files st' = (if w = None then AList.update p d (files st) else files st) \<and>
     faults st' = tl (faults st)"
  by (cases "faults st")
     (auto simp: WriteFile_def next_fault_def called_def split: option.splits)

lemma DeleteFile_result:
  "\<exists>r st'. DeleteFile st p = (r, st') \<and> trace st' = trace st @ [(CallDeleteFile p, r)] \<and>
     files st' = (if r = Some IOFailure then files st else AList.delete p (files st)) \<and>
     faults st' = tl (faults st)"
  by (cases "faults st")
     (auto simp: DeleteFile_def next_fault_def called_def delete_absent
           split: option.splits storage_error.splits)

lemmas storage_defs = FileExists_def WalkDir_def WriteFile_def ReadFile_def DeleteFile_def
  next_fault_def called_def IsNotExistInExtStorage_def

lemmas name_defs = getDeletedChangefeedMarker_def getChangefeedMatcher_def getMetafileName_def
  DefaultNamespace_def MetaEXT_def LogEXT_def RedoMetaFileType_def RedoRowLogFileType_def
  RedoDDLLogFileType_def HasSuffix_def Ext_def

lemmas flush_defs = maybeFlushMeta_def prepareForFlushMeta_def postFlushMeta_def flush_def
  getFlushed_def getUnflushed_def setFlushed_def checkAndSetUnflushed_def Let_def

lemmas example_defs = example_externals_def example_feed_def example_uuid_def empty_store_def

subsection \<open>Flushing\<close>

lemma flush_marshal_failed:
  "MarshalMsg ext meta = None \<Longrightarrow> flush ext m meta = (Err ErrMarshalFailed, m)"
  by (simp add: flush_def)

lemma flush_keeps_ts:
  "flush ext m meta = (r, m') \<Longrightarrow>
   metaCheckpointTs m' = metaCheckpointTs m \<and> metaResolvedTs m' = metaResolvedTs m"
  by (auto simp: flush_def Let_def split: option.splits prod.splits if_splits)

lemma flush_result:
  assumes st: "extStorage m = Some st" and d: "MarshalMsg ext meta = Some data"
  shows "\<exists>r m' st' calls. flush ext m meta = (r, m') \<and> extStorage m' = Some st' \<and>
     trace st' = trace st @ calls \<and>
     ((\<exists>e. calls = [(CallWriteFile (getMetafileName (captureID m) (changeFeedID m)
                        (uuidGenerator m (uuidDrawn m))) data, Some e)] \<and>
           r = Err (ErrExternalStorageAPI e)) \<or>
      (calls = [(CallWriteFile (getMetafileName (captureID m) (changeFeedID m)
                   (uuidGenerator m (uuidDrawn m))) data, None)] \<and>
       (preMetaFile m = [] \<or>
        preMetaFile m = getMetafileName (captureID m) (changeFeedID m)
                          (uuidGenerator m (uuidDrawn m))) \<and> r = Nil) \<or>
      (\<exists>d. calls = [(CallWriteFile (getMetafileName (captureID m) (changeFeedID m)
                        (uuidGenerator m (uuidDrawn m))) data, None),
                      (CallDeleteFile (preMetaFile m), d)] \<and>
           preMetaFile m \<noteq> [] \<and>
           preMetaFile m \<noteq> getMetafileName (captureID m) (changeFeedID m)
                               (uuidGenerator m (uuidDrawn m)) \<and>
           r = (if d = None \<or> d = Some NotExist then Nil
                else Err (ErrExternalStorageAPI IOFailure)))) \<and>
     (r = Nil \<longrightarrow> map_of (files st') (getMetafileName (captureID m) (changeFeedID m)
                                        (uuidGenerator m (uuidDrawn m))) = Some data)"
proof -
  let ?f = "getMetafileName (captureID m) (changeFeedID m) (uuidGenerator m (uuidDrawn m))"
  obtain w st1 where w: "WriteFile st ?f data = (w, st1)"
    "trace st1 = trace st @ [(CallWriteFile ?f data, w)]"
    "files st1 = (if w = None then AList.update ?f data (files st) else files st)"
    using WriteFile_result [of st ?f data] by blast
  obtain r2 st2 where r2: "DeleteFile st1 (preMetaFile m) = (r2, st2)"
    "trace st2 = trace st1 @ [(CallDeleteFile (preMetaFile m), r2)]"
    "files st2 = (if r2 = Some IOFailure then files st1 else AList.delete (preMetaFile m) (files st1))"
    using DeleteFile_result [of st1 "preMetaFile m"] by blast
  show ?thesis
  proof (cases w)
    case (Some e)
    with st d w show ?thesis
      by (simp add: flush_def Let_def)
  next
    case None
    show ?thesis
    proof (cases "preMetaFile m = [] \<or> preMetaFile m = ?f")
      case True
      with st d w None show ?thesis
        by (auto simp: flush_def Let_def update_conv')
    next
      case False
      then have ne: "preMetaFile m \<noteq> []" "preMetaFile m \<noteq> ?f" by auto
      show ?thesis
      proof (cases r2)
        case n2: None
        with st d w None ne r2 show ?thesis
          by (simp add: flush_def Let_def update_conv' delete_conv')
      next
        case (Some e2)
        with st d w None ne r2 show ?thesis
          by (cases e2)
             (simp_all add: flush_def Let_def update_conv' delete_conv'
                IsNotExistInExtStorage_def)
      qed
    qed
  qed
qed

lemma maybeFlushMeta_eq:
  "maybeFlushMeta ext m =
     (if \<not> fst (prepareForFlushMeta m) then (Nil, m)
      else (case flush ext m (snd (prepareForFlushMeta m)) of
              (Nil, m') \<Rightarrow> (Nil, postFlushMeta m' (snd (prepareForFlushMeta m)))
            | (r, m') \<Rightarrow> (r, m')))"
  by (simp add: maybeFlushMeta_def case_prod_beta)

lemma maybeFlushMeta_ts:
  assumes "maybeFlushMeta ext m = (r, m')"
  shows "(metaCheckpointTs m' = metaCheckpointTs m \<and> metaResolvedTs m' = metaResolvedTs m) \<or>
         (r = Nil \<and> fst (prepareForFlushMeta m) \<and>
          metaCheckpointTs m' = (metaCheckpointTs m)\<lparr>flushed := unflushed (metaCheckpointTs m)\<rparr> \<and>
          metaResolvedTs m' = (metaResolvedTs m)\<lparr>flushed := unflushed (metaResolvedTs m)\<rparr>)"
proof (cases "fst (prepareForFlushMeta m)")
  case False
  with assms show ?thesis by (simp add: maybeFlushMeta_eq)
next
  case True
  obtain r1 m1 where f: "flush ext m (snd (prepareForFlushMeta m)) = (r1, m1)"
    by (cases "flush ext m (snd (prepareForFlushMeta m))")
  note k = flush_keeps_ts [OF f]
  show ?thesis
  proof (cases r1)
    case Nil
    with assms True f k show ?thesis
      by (auto simp: maybeFlushMeta_eq postFlushMeta_def setFlushed_def
            prepareForFlushMeta_def getUnflushed_def Let_def)
  next
    case (Err e)
    with assms True f k show ?thesis by (auto simp: maybeFlushMeta_eq)
  next
    case Panic
    with assms True f k show ?thesis by (auto simp: maybeFlushMeta_eq)
  qed
qed

subsection \<open>Sequences of calls and ticks\<close>

lemma step_flushed_mono:
  assumes "flushed_le_unflushed m"
  shows "flushed_le_unflushed (step ext m ev) \<and>
         flushed (metaCheckpointTs m) \<le> flushed (metaCheckpointTs (step ext m ev)) \<and>
         flushed (metaResolvedTs m) \<le> flushed (metaResolvedTs (step ext m ev))"
proof (cases ev)
  case (CallUpdateMeta c r)
  with assms show ?thesis
    by (auto simp: flushed_le_unflushed_def UpdateMeta_checkpoint UpdateMeta_resolved)
next
  case FlushTick
  show ?thesis
  proof (cases "extStorage m = None")
    case True
    with FlushTick assms show ?thesis by simp
  next
    case False
    obtain r m' where f: "maybeFlushMeta ext m = (r, m')" by (cases "maybeFlushMeta ext m")
    from maybeFlushMeta_ts [OF f] f FlushTick False assms show ?thesis
      by (auto simp: flushed_le_unflushed_def)
  qed
qed

lemma run_events_append:
  "run_events ext m (evs1 @ evs2) = run_events ext (run_events ext m evs1) evs2"
  by (simp add: run_events_def)

lemma run_events_flushed_le_unflushed:
  "flushed_le_unflushed m \<Longrightarrow> flushed_le_unflushed (run_events ext m evs)"
  unfolding run_events_def
  by (induction evs arbitrary: m) (simp_all add: step_flushed_mono)

lemma run_events_flushed_mono:
  "flushed_le_unflushed m \<Longrightarrow>
   flushed (metaCheckpointTs m) \<le> flushed (metaCheckpointTs (run_events ext m evs)) \<and>
   flushed (metaResolvedTs m) \<le> flushed (metaResolvedTs (run_events ext m evs))"
  unfolding run_events_def
proof (induction evs arbitrary: m)
  case Nil
  then show ?case by simp
next
  case (Cons ev evs)
  from step_flushed_mono [OF Cons.prems, of ext ev] Cons.IH [of "step ext m ev"]
  show ?case by (auto intro: order_trans)
qed

lemma step_checkpoint_le_resolved:
  assumes "checkpoint_le_resolved m" and "ordered_args ev"
  shows "checkpoint_le_resolved (step ext m ev)"
proof (cases ev)
  case (CallUpdateMeta c r)
  with assms show ?thesis
    by (auto simp: checkpoint_le_resolved_def ordered_args_def UpdateMeta_checkpoint
          UpdateMeta_resolved)
next
  case FlushTick
  show ?thesis
  proof (cases "extStorage m = None")
    case True
    with FlushTick assms show ?thesis by simp
  next
    case False
    obtain r m' where f: "maybeFlushMeta ext m = (r, m')" by (cases "maybeFlushMeta ext m")
    from maybeFlushMeta_ts [OF f] f FlushTick False assms show ?thesis
      by (auto simp: checkpoint_le_resolved_def)
  qed
qed

lemma run_events_checkpoint_le_resolved:
  "checkpoint_le_resolved m \<Longrightarrow> \<forall>ev\<in>set evs. ordered_args ev \<Longrightarrow>
   checkpoint_le_resolved (run_events ext m evs)"
  unfolding run_events_def
  by (induction evs arbitrary: m) (simp_all add: step_checkpoint_le_resolved)

subsection \<open>Initialisation\<close>

lemma preCleanup_keeps_ts:
  "preCleanupExtStorage m = (r, m') \<Longrightarrow>
   metaCheckpointTs m' = metaCheckpointTs m \<and> metaResolvedTs m' = metaResolvedTs m"
  by (auto simp: preCleanupExtStorage_def Let_def
        split: option.splits prod.splits sum.splits if_splits outcome.splits)

lemma initMeta_Nil_inv:
  assumes "initMeta ext cd m s = (Nil, m')"
    and "flushed (metaCheckpointTs m) = 0" and "flushed (metaResolvedTs m) = 0"
  shows "flushed_le_unflushed m' \<and> checkpoint_le_resolved m'"
  using assms
  by (auto simp: initMeta_def Let_def ParseMeta_def flushed_le_unflushed_def
        checkpoint_le_resolved_def
        split: option.splits prod.splits sum.splits if_splits outcome.splits
        dest!: maybeFlushMeta_ts)

lemma NewMetaManagerWithInit_inv:
  assumes "NewMetaManagerWithInit ext cd capture cf gen cfg s = (Nil, m0)"
  shows "flushed_le_unflushed m0 \<and> checkpoint_le_resolved m0"
proof (cases cfg)
  case Disabled
  with assms show ?thesis
    by (auto simp: NewMetaManagerWithInit_def NewMetaManager_def zeroManager_def
          flushed_le_unflushed_def checkpoint_le_resolved_def)
next
  case Blackhole
  with assms show ?thesis
    by (auto simp: NewMetaManagerWithInit_def NewMetaManager_def zeroManager_def
          flushed_le_unflushed_def checkpoint_le_resolved_def)
next
  case (External st)
  let ?m = "NewMetaManager capture cf gen cfg"
  obtain r1 m1 where p: "preCleanupExtStorage ?m = (r1, m1)"
    by (cases "preCleanupExtStorage ?m")
  from External have z: "flushed (metaCheckpointTs ?m) = 0" "flushed (metaResolvedTs ?m) = 0"
    and s: "extStorage ?m \<noteq> None"
    by (simp_all add: NewMetaManager_def zeroManager_def)
  from assms p s have i: "r1 = Nil" "initMeta ext cd m1 s = (Nil, m0)"
    by (auto simp: NewMetaManagerWithInit_def Let_def split: outcome.splits)
  from preCleanup_keeps_ts [OF p] z
  have "flushed (metaCheckpointTs m1) = 0" "flushed (metaResolvedTs m1) = 0" by simp_all
  from initMeta_Nil_inv [OF i(2) this] show ?thesis .
qed

subsection \<open>The scenarios, evaluated\<close>





lemma example_manager_init:
  "NewMetaManagerWithInit example_externals False ''cap'' example_feed example_uuid
     (External empty_store) 10 = (Nil, example_manager)"
proof -
  have "fst (NewMetaManagerWithInit example_externals False ''cap'' example_feed example_uuid
          (External empty_store) 10) = Nil"
    by (simp add: NewMetaManagerWithInit_def NewMetaManager_def zeroManager_def
          preCleanupExtStorage_def initMeta_def ParseMeta_def storage_defs name_defs flush_defs
          example_defs)
  then show ?thesis
    by (simp add: example_manager_def prod_eq_iff)
qed

lemma example_manager_eval:
  "metaCheckpointTs example_manager = \<lparr>flushed = 10, unflushed = 10\<rparr> \<and>
   metaResolvedTs example_manager = \<lparr>flushed = 10, unflushed = 10\<rparr> \<and>
   preMetaFile example_manager = ''cap_default_feed_meta_uuid.meta'' \<and>
   uuidDrawn example_manager = 1 \<and>
   uuidGenerator example_manager = example_uuid \<and>
   captureID example_manager = ''cap'' \<and>
   changeFeedID example_manager = example_feed \<and>
   logs example_manager = [] \<and>
   extStorage example_manager =
     Some \<lparr>files = [(''cap_default_feed_meta_uuid.meta'',
                      example_encode \<lparr>CheckpointTs = 10, ResolvedTs = 10\<rparr>)],
           faults = [],
           trace = [(CallFileExists ''delete_feed'', None), (CallWalkDir, None),
                    (CallWriteFile ''cap_default_feed_meta_uuid.meta''
                       (example_encode \<lparr>CheckpointTs = 10, ResolvedTs = 10\<rparr>), None)]\<rparr>"
  by (simp add: example_manager_def NewMetaManagerWithInit_def NewMetaManager_def zeroManager_def
        preCleanupExtStorage_def initMeta_def ParseMeta_def storage_defs name_defs flush_defs
        example_defs)

text \<open>
  C1. From the manager that \<open>NewMetaManagerWithInit\<close> returns, along every sequence of
  \<open>UpdateMeta\<close> calls (with any arguments) and flush ticks (failing or not), what
  \<open>GetFlushedMeta\<close> returns after a prefix of the sequence is, in each of the two
  timestamps, at most what it returns after the whole sequence.
\<close>

theorem flushed_meta_monotone:
  assumes "NewMetaManagerWithInit ext ctxDone capture cf gen cfg startTs = (Nil, m0)"
  shows "CheckpointTs (GetFlushedMeta (run_events ext m0 evs1))
           \<le> CheckpointTs (GetFlushedMeta (run_events ext m0 (evs1 @ evs2))) \<and>
         ResolvedTs (GetFlushedMeta (run_events ext m0 evs1))
           \<le> ResolvedTs (GetFlushedMeta (run_events ext m0 (evs1 @ evs2)))"
proof -
  from NewMetaManagerWithInit_inv [OF assms] have "flushed_le_unflushed m0" by simp
  then have "flushed_le_unflushed (run_events ext m0 evs1)"
    by (rule run_events_flushed_le_unflushed)
  from run_events_flushed_mono [OF this, of ext evs2] show ?thesis
    by (simp add: run_events_append GetFlushedMeta_def getFlushed_def)
qed

text \<open>Scenarios S1 and S2, one after the other: \<open>(15, 25)\<close>, then \<open>(15, 30)\<close>.\<close>

theorem flushed_meta_monotone_witness:
  "NewMetaManagerWithInit example_externals False ''cap'' example_feed example_uuid
     (External empty_store) 10 = (Nil, example_manager) \<and>
   GetFlushedMeta (run_events example_externals example_manager
       [CallUpdateMeta 10 20, CallUpdateMeta 15 25, FlushTick])
     = \<lparr>CheckpointTs = 15, ResolvedTs = 25\<rparr> \<and>
   CheckpointTs (GetFlushedMeta (run_events example_externals example_manager
       [CallUpdateMeta 10 20, CallUpdateMeta 15 25, FlushTick]))
     \<le> CheckpointTs (GetFlushedMeta (run_events example_externals example_manager
       ([CallUpdateMeta 10 20, CallUpdateMeta 15 25, FlushTick] @ [CallUpdateMeta 5 30, FlushTick]))) \<and>
   ResolvedTs (GetFlushedMeta (run_events example_externals example_manager
       [CallUpdateMeta 10 20, CallUpdateMeta 15 25, FlushTick]))
     \<le> ResolvedTs (GetFlushedMeta (run_events example_externals example_manager
       ([CallUpdateMeta 10 20, CallUpdateMeta 15 25, FlushTick] @ [CallUpdateMeta 5 30, FlushTick])))"
proof -
  have "GetFlushedMeta (run_events example_externals example_manager
       [CallUpdateMeta 10 20, CallUpdateMeta 15 25, FlushTick])
     = \<lparr>CheckpointTs = 15, ResolvedTs = 25\<rparr>"
    by (simp add: run_events_def UpdateMeta_def GetFlushedMeta_def example_manager_eval
          storage_defs name_defs flush_defs example_defs)
  with example_manager_init flushed_meta_monotone [OF example_manager_init]
  show ?thesis by blast
qed

text \<open>
  C2, as stated, fails: after initialisation at 10, \<open>UpdateMeta(100, 50)\<close> and a flush
  leave the flushed pair at \<open>(100, 50)\<close>.
\<close>

theorem flushed_checkpoint_le_resolved_counterexample:
  "NewMetaManagerWithInit example_externals False ''cap'' example_feed example_uuid
     (External empty_store) 10 = (Nil, example_manager) \<and>
   GetFlushedMeta (run_events example_externals example_manager
       [CallUpdateMeta 100 50, FlushTick]) = \<lparr>CheckpointTs = 100, ResolvedTs = 50\<rparr> \<and>
   \<not> CheckpointTs (GetFlushedMeta
         (run_events example_externals example_manager [CallUpdateMeta 100 50, FlushTick]))
     \<le> ResolvedTs (GetFlushedMeta
         (run_events example_externals example_manager [CallUpdateMeta 100 50, FlushTick]))"
proof -
  have "GetFlushedMeta (run_events example_externals example_manager
       [CallUpdateMeta 100 50, FlushTick]) = \<lparr>CheckpointTs = 100, ResolvedTs = 50\<rparr>"
    by (simp add: run_events_def UpdateMeta_def GetFlushedMeta_def example_manager_eval
          storage_defs name_defs flush_defs example_defs)
  with example_manager_init show ?thesis by simp
qed

text \<open>
  C2, amended. From the manager that \<open>NewMetaManagerWithInit\<close> returns, along every
  sequence of flush ticks and of \<open>UpdateMeta\<close> calls whose checkpointTs argument is at
  most their resolvedTs argument, the pair that \<open>GetFlushedMeta\<close> returns has
  \<open>checkpointTs \<le> resolvedTs\<close>.
\<close>

theorem flushed_checkpoint_le_resolved:
  assumes "NewMetaManagerWithInit ext ctxDone capture cf gen cfg startTs = (Nil, m0)"
    and "\<forall>ev\<in>set evs. ordered_args ev"
  shows "CheckpointTs (GetFlushedMeta (run_events ext m0 evs))
           \<le> ResolvedTs (GetFlushedMeta (run_events ext m0 evs))"
proof -
  from NewMetaManagerWithInit_inv [OF assms(1)] have "checkpoint_le_resolved m0" by simp
  from run_events_checkpoint_le_resolved [OF this assms(2), of ext] show ?thesis
    by (simp add: checkpoint_le_resolved_def GetFlushedMeta_def getFlushed_def)
qed

theorem flushed_checkpoint_le_resolved_witness:
  "NewMetaManagerWithInit example_externals False ''cap'' example_feed example_uuid
     (External empty_store) 10 = (Nil, example_manager) \<and>
   list_all ordered_args [CallUpdateMeta 15 25, FlushTick, CallUpdateMeta 5 30, FlushTick] \<and>
   CheckpointTs (GetFlushedMeta (run_events example_externals example_manager
       [CallUpdateMeta 15 25, FlushTick, CallUpdateMeta 5 30, FlushTick]))
     \<le> ResolvedTs (GetFlushedMeta (run_events example_externals example_manager
       [CallUpdateMeta 15 25, FlushTick, CallUpdateMeta 5 30, FlushTick]))"
proof -
  have o: "\<forall>ev\<in>set [CallUpdateMeta 15 25, FlushTick, CallUpdateMeta 5 30, FlushTick].
             ordered_args ev"
    by (simp add: ordered_args_def)
  then have "list_all ordered_args
               [CallUpdateMeta 15 25, FlushTick, CallUpdateMeta 5 30, FlushTick]"
    by (simp only: list_all_iff)
  with example_manager_init flushed_checkpoint_le_resolved [OF example_manager_init o]
  show ?thesis by blast
qed

text \<open>
  C4, as stated, fails: when the previous meta file has gone, its delete fails with
  not-found, and yet the call returns nil and publishes the new pair.
\<close>

theorem maybeFlushMeta_delete_not_found_counterexample:
  "fst (prepareForFlushMeta flush_gone_manager) \<and>
   GetFlushedMeta flush_gone_manager = \<lparr>CheckpointTs = 10, ResolvedTs = 10\<rparr> \<and>
   map_option trace (extStorage (snd (maybeFlushMeta example_externals flush_gone_manager))) =
     Some [(CallWriteFile ''cap_default_feed_meta_uuidx.meta''
              (example_encode \<lparr>CheckpointTs = 15, ResolvedTs = 25\<rparr>), None),
           (CallDeleteFile ''cap_default_feed_meta_uuid.meta'', Some NotExist)] \<and>
   fst (maybeFlushMeta example_externals flush_gone_manager) = Nil \<and>
   GetFlushedMeta (snd (maybeFlushMeta example_externals flush_gone_manager))
     = \<lparr>CheckpointTs = 15, ResolvedTs = 25\<rparr>"
  by (simp add: flush_gone_manager_def UpdateMeta_def GetFlushedMeta_def example_manager_eval
        storage_defs name_defs flush_defs example_defs)

text \<open>
  C4, amended. A run of \<open>maybeFlushMeta\<close> that finds an advanced field makes no storage call
  when marshalling fails, and otherwise first writes the new \<open>LogMeta\<close> to the file
  named after the next uuid of the generator; only after a successful write, and only
  when there is a previous meta file of another name, it deletes that file. The call
  returns an error exactly when marshalling fails, the write fails, or the delete fails
  with an error other than not-found. It publishes the new pair as flushed only when it
  returns nil, so only after a successful write; whenever it does not return nil, what
  \<open>GetFlushedMeta\<close> returns is unchanged.
\<close>

theorem maybeFlushMeta_write_then_publish:
  assumes st: "extStorage m = Some st" and adv: "fst (prepareForFlushMeta m)"
  shows "\<exists>r m' st' calls.
     maybeFlushMeta ext m = (r, m') \<and> extStorage m' = Some st' \<and> trace st' = trace st @ calls \<and>
     (case MarshalMsg ext (snd (prepareForFlushMeta m)) of
        None \<Rightarrow> calls = [] \<and> r = Err ErrMarshalFailed
      | Some data \<Rightarrow>
          (let metaFile = getMetafileName (captureID m) (changeFeedID m)
                            (uuidGenerator m (uuidDrawn m))
           in ((\<exists>e. calls = [(CallWriteFile metaFile data, Some e)] \<and>
                    r = Err (ErrExternalStorageAPI e)) \<or>
               (calls = [(CallWriteFile metaFile data, None)] \<and>
                (preMetaFile m = [] \<or> preMetaFile m = metaFile) \<and> r = Nil) \<or>
               (\<exists>d. calls = [(CallWriteFile metaFile data, None),
                               (CallDeleteFile (preMetaFile m), d)] \<and>
                    preMetaFile m \<noteq> [] \<and> preMetaFile m \<noteq> metaFile \<and>
                    r = (if d = None \<or> d = Some NotExist then Nil
                         else Err (ErrExternalStorageAPI IOFailure)))) \<and>
              (r = Nil \<longrightarrow> map_of (files st') metaFile = Some data))) \<and>
     (r = Nil \<longrightarrow> GetFlushedMeta m' = snd (prepareForFlushMeta m)) \<and>
     (r \<noteq> Nil \<longrightarrow> GetFlushedMeta m' = GetFlushedMeta m)"
proof -
  let ?meta = "snd (prepareForFlushMeta m)"
  let ?f = "getMetafileName (captureID m) (changeFeedID m) (uuidGenerator m (uuidDrawn m))"
  show ?thesis
  proof (cases "MarshalMsg ext ?meta")
    case None
    with st adv show ?thesis
      by (simp add: maybeFlushMeta_eq flush_marshal_failed GetFlushedMeta_def)
  next
    case (Some data)
    from flush_result [OF st Some]
    obtain r m1 st1 calls where f: "flush ext m ?meta = (r, m1)" "extStorage m1 = Some st1"
      and tr: "trace st1 = trace st @ calls"
      and shape: "(\<exists>e. calls = [(CallWriteFile ?f data, Some e)] \<and>
                    r = Err (ErrExternalStorageAPI e)) \<or>
               (calls = [(CallWriteFile ?f data, None)] \<and>
                (preMetaFile m = [] \<or> preMetaFile m = ?f) \<and> r = Nil) \<or>
               (\<exists>d. calls = [(CallWriteFile ?f data, None),
                               (CallDeleteFile (preMetaFile m), d)] \<and>
                    preMetaFile m \<noteq> [] \<and> preMetaFile m \<noteq> ?f \<and>
                    r = (if d = None \<or> d = Some NotExist then Nil
                         else Err (ErrExternalStorageAPI IOFailure)))"
      and w: "r = Nil \<longrightarrow> map_of (files st1) ?f = Some data"
      by blast
    from flush_keeps_ts [OF f(1)]
    have k: "metaCheckpointTs m1 = metaCheckpointTs m" "metaResolvedTs m1 = metaResolvedTs m"
      by simp_all
    define m2 where "m2 = (if r = Nil then postFlushMeta m1 ?meta else m1)"
    have 1: "maybeFlushMeta ext m = (r, m2)"
      using adv f by (cases r) (simp_all add: maybeFlushMeta_eq m2_def)
    have 2: "extStorage m2 = Some st1"
      using f by (simp add: m2_def postFlushMeta_def Let_def)
    have 3: "r = Nil \<longrightarrow> GetFlushedMeta m2 = ?meta"
      by (simp add: m2_def GetFlushedMeta_def postFlushMeta_def setFlushed_def getFlushed_def
            Let_def)
    have 4: "r \<noteq> Nil \<longrightarrow> GetFlushedMeta m2 = GetFlushedMeta m"
      using k by (simp add: m2_def GetFlushedMeta_def)
    have 5: "case MarshalMsg ext ?meta of
        None \<Rightarrow> calls = [] \<and> r = Err ErrMarshalFailed
      | Some data \<Rightarrow>
          (let metaFile = ?f
           in ((\<exists>e. calls = [(CallWriteFile metaFile data, Some e)] \<and>
                    r = Err (ErrExternalStorageAPI e)) \<or>
               (calls = [(CallWriteFile metaFile data, None)] \<and>
                (preMetaFile m = [] \<or> preMetaFile m = metaFile) \<and> r = Nil) \<or>
               (\<exists>d. calls = [(CallWriteFile metaFile data, None),
                               (CallDeleteFile (preMetaFile m), d)] \<and>
                    preMetaFile m \<noteq> [] \<and> preMetaFile m \<noteq> metaFile \<and>
                    r = (if d = None \<or> d = Some NotExist then Nil
                         else Err (ErrExternalStorageAPI IOFailure)))) \<and>
              (r = Nil \<longrightarrow> map_of (files st1) metaFile = Some data))"
      unfolding Some option.case Let_def using shape w by (rule conjI)
    from 1 2 tr 5 3 4 show ?thesis by blast
  qed
qed

text \<open>
  A flush whose write succeeds and whose delete of the previous file fails: the call
  returns the storage error and the flushed pair stays at \<open>(10, 10)\<close>.
\<close>

theorem maybeFlushMeta_write_then_publish_witness:
  "extStorage flush_fault_manager \<noteq> None \<and>
   fst (prepareForFlushMeta flush_fault_manager) \<and>
   fst (maybeFlushMeta example_externals flush_fault_manager)
     = Err (ErrExternalStorageAPI IOFailure) \<and>
   GetFlushedMeta (snd (maybeFlushMeta example_externals flush_fault_manager))
     = GetFlushedMeta flush_fault_manager \<and>
   GetFlushedMeta flush_fault_manager = \<lparr>CheckpointTs = 10, ResolvedTs = 10\<rparr>"
proof -
  obtain st where st: "extStorage flush_fault_manager = Some st"
    by (simp add: flush_fault_manager_def example_manager_eval)
  have adv: "fst (prepareForFlushMeta flush_fault_manager)"
    by (simp add: flush_fault_manager_def UpdateMeta_def example_manager_eval flush_defs)
  have e: "fst (maybeFlushMeta example_externals flush_fault_manager)
     = Err (ErrExternalStorageAPI IOFailure)"
    by (simp add: flush_fault_manager_def UpdateMeta_def example_manager_eval
          storage_defs name_defs flush_defs example_defs)
  have g: "GetFlushedMeta flush_fault_manager = \<lparr>CheckpointTs = 10, ResolvedTs = 10\<rparr>"
    by (simp add: flush_fault_manager_def UpdateMeta_def GetFlushedMeta_def
          example_manager_eval flush_defs)
  from maybeFlushMeta_write_then_publish [OF st adv, of example_externals] e
  have "GetFlushedMeta (snd (maybeFlushMeta example_externals flush_fault_manager))
     = GetFlushedMeta flush_fault_manager"
    by auto
  with st adv e g show ?thesis by simp
qed

subsection \<open>Sweeps\<close>

lemma WalkDir_result:
  "\<exists>w st'. WalkDir st = ((case w of Some e \<Rightarrow> Inl e | None \<Rightarrow> Inr (map fst (files st))), st') \<and>
     trace st' = trace st @ [(CallWalkDir, w)] \<and> files st' = files st \<and>
     faults st' = tl (faults st) \<and> w = (case faults st of [] \<Rightarrow> None | f # fs \<Rightarrow> f)"
  by (cases "faults st")
     (auto simp: WalkDir_def next_fault_def called_def split: option.splits)

lemma FileExists_result:
  "\<exists>w st'. FileExists st p =
       ((case w of Some e \<Rightarrow> Inl e | None \<Rightarrow> Inr (map_of (files st) p \<noteq> None)), st') \<and>
     trace st' = trace st @ [(CallFileExists p, w)] \<and> files st' = files st \<and>
     faults st' = tl (faults st) \<and> w = (case faults st of [] \<Rightarrow> None | f # fs \<Rightarrow> f)"
  by (cases "faults st")
     (auto simp: FileExists_def next_fault_def called_def split: option.splits)

lemma DeleteFilesInExtStorage_result:
  "\<exists>r st' calls gone. DeleteFilesInExtStorage st names = (r, st') \<and>
     trace st' = trace st @ calls \<and>
     fst ` set calls \<subseteq> CallDeleteFile ` set names \<and>
     (r = Nil \<or> r = Err (ErrExternalStorageAPI IOFailure)) \<and>
     set gone \<subseteq> set names \<and> (r = Nil \<longrightarrow> gone = names) \<and>
     files st' = filter (\<lambda>(p, d). p \<notin> set gone) (files st)"
proof (induction names arbitrary: st)
  case Nil
  show ?case by (simp add: case_prod_beta)
next
  case (Cons n ns)
  obtain r1 st1 where d: "DeleteFile st n = (r1, st1)"
    "trace st1 = trace st @ [(CallDeleteFile n, r1)]"
    "files st1 = (if r1 = Some IOFailure then files st else AList.delete n (files st))"
    using DeleteFile_result [of st n] by blast
  show ?case
  proof (cases "r1 = Some IOFailure")
    case True
    with d have "DeleteFilesInExtStorage st (n # ns) = (Err (ErrExternalStorageAPI IOFailure), st1)"
      by (simp add: IsNotExistInExtStorage_def)
    moreover have "files st1 = filter (\<lambda>(p, d). p \<notin> set []) (files st)"
      using d True by simp
    moreover have "fst ` set [(CallDeleteFile n, r1)] \<subseteq> CallDeleteFile ` set (n # ns)"
      by simp
    ultimately show ?thesis using d(2)
      by (intro exI [of _ "Err (ErrExternalStorageAPI IOFailure)"] exI [of _ st1]
            exI [of _ "[(CallDeleteFile n, r1)]"] exI [of _ "[]"]) simp
  next
    case False
    have rec: "DeleteFilesInExtStorage st (n # ns) = DeleteFilesInExtStorage st1 ns"
    proof (cases r1)
      case None
      with d show ?thesis by simp
    next
      case (Some e)
      with False have "e = NotExist" by (cases e) simp_all
      with Some d show ?thesis by (simp add: IsNotExistInExtStorage_def)
    qed
    from Cons.IH [of st1] obtain r st' calls gone
      where ih: "DeleteFilesInExtStorage st1 ns = (r, st')" "trace st' = trace st1 @ calls"
        "fst ` set calls \<subseteq> CallDeleteFile ` set ns"
        "r = Nil \<or> r = Err (ErrExternalStorageAPI IOFailure)"
        "set gone \<subseteq> set ns" "r = Nil \<longrightarrow> gone = ns"
        "files st' = filter (\<lambda>(p, d). p \<notin> set gone) (files st1)"
      by blast
    have f: "files st' = filter (\<lambda>(p, d). p \<notin> set (n # gone)) (files st)"
      using ih(7) d(3) False by (auto simp: AList.delete_eq intro: filter_cong)
    have c: "fst ` set ((CallDeleteFile n, r1) # calls) \<subseteq> CallDeleteFile ` set (n # ns)"
      using ih(3) by auto
    from rec ih d(2) f c show ?thesis
      by (intro exI [of _ r] exI [of _ st'] exI [of _ "(CallDeleteFile n, r1) # calls"]
            exI [of _ "n # gone"]) auto
  qed
qed

lemma collectFiles_result:
  "collectFiles pred paths =
     (if \<exists>p\<in>set paths. pred p = None then None
      else Some (filter (\<lambda>p. pred p = Some True) paths))"
  by (induction paths) (auto split: option.splits)

lemma RemoveFilesIf_result:
  "\<exists>r st' w dels gone. RemoveFilesIf st pred = (r, st') \<and>
     trace st' = trace st @ (CallWalkDir, w) # dels \<and>
     w = (case faults st of [] \<Rightarrow> None | f # fs \<Rightarrow> f) \<and>
     fst ` set dels \<subseteq> CallDeleteFile ` {p \<in> fst ` set (files st). pred p = Some True} \<and>
     set gone \<subseteq> {p \<in> fst ` set (files st). pred p = Some True} \<and>
     files st' = filter (\<lambda>(p, d). p \<notin> set gone) (files st) \<and>
     (case w of
        Some e \<Rightarrow> r = Err (ErrExternalStorageAPI e) \<and> dels = [] \<and> gone = []
      | None \<Rightarrow>
          if \<exists>p\<in>fst ` set (files st). pred p = None then r = Panic \<and> dels = [] \<and> gone = []
          else (r = Nil \<or> r = Err (ErrExternalStorageAPI IOFailure)) \<and>
               (r = Nil \<longrightarrow> files st' = filter (\<lambda>(p, d). pred p \<noteq> Some True) (files st)))"
proof -
  obtain w st1 where wd: "WalkDir st =
        ((case w of Some e \<Rightarrow> Inl e | None \<Rightarrow> Inr (map fst (files st))), st1)"
      "trace st1 = trace st @ [(CallWalkDir, w)]" "files st1 = files st"
      "(case faults st of [] \<Rightarrow> None | f # fs \<Rightarrow> f) = w"
    using WalkDir_result [of st] by metis
  show ?thesis
  proof (cases w)
    case (Some e)
    with wd show ?thesis
      by (intro exI [of _ "Err (ErrExternalStorageAPI e)"] exI [of _ st1] exI [of _ w]
            exI [of _ "[]"]) (simp add: RemoveFilesIf_def case_prod_beta)
  next
    case None
    show ?thesis
    proof (cases "\<exists>p\<in>fst ` set (files st). pred p = None")
      case True
      then have "collectFiles pred (map fst (files st)) = None"
        by (simp add: collectFiles_result)
      with wd None True show ?thesis
        by (intro exI [of _ Panic] exI [of _ st1] exI [of _ w] exI [of _ "[]"])
           (simp add: RemoveFilesIf_def case_prod_beta)
    next
      case False
      let ?rm = "filter (\<lambda>p. pred p = Some True) (map fst (files st))"
      from False have cf: "collectFiles pred (map fst (files st)) = Some ?rm"
        by (simp add: collectFiles_result)
      from DeleteFilesInExtStorage_result [of st1 ?rm] obtain r st' calls gone
        where d: "DeleteFilesInExtStorage st1 ?rm = (r, st')" "trace st' = trace st1 @ calls"
          "fst ` set calls \<subseteq> CallDeleteFile ` set ?rm"
          "r = Nil \<or> r = Err (ErrExternalStorageAPI IOFailure)"
          "set gone \<subseteq> set ?rm" "r = Nil \<longrightarrow> gone = ?rm"
          "files st' = filter (\<lambda>(p, d). p \<notin> set gone) (files st1)"
        by blast
      have s: "set ?rm = {p \<in> fst ` set (files st). pred p = Some True}" by auto
      have full: "filter (\<lambda>(p, d). p \<notin> set ?rm) (files st)
                  = filter (\<lambda>(p, d). pred p \<noteq> Some True) (files st)"
        by (rule filter_cong) (auto simp: rev_image_eqI)
      have r: "RemoveFilesIf st pred = (r, st')"
        using wd None cf d(1) by (simp add: RemoveFilesIf_def)
      from r d wd None False s full show ?thesis
        by (intro exI [of _ r] exI [of _ st'] exI [of _ w] exI [of _ calls] exI [of _ gone])
           auto
    qed
  qed
qed

subsection \<open>Garbage collection\<close>

lemma shouldRemoved_True:
  "shouldRemoved ext m p C = Some True \<longleftrightarrow>
     Contains p (getChangefeedMatcher (changeFeedID m)) \<and> Ext p = ''.log'' \<and>
     (\<exists>ts ty. ParseLogFileName ext p = Some (ts, ty) \<and> (ty = ''row'' \<or> ty = ''ddl'') \<and> ts < C)"
  by (auto simp: shouldRemoved_def LogEXT_def RedoRowLogFileType_def RedoDDLLogFileType_def
        Let_def split: option.splits)

lemma shouldRemoved_None:
  "shouldRemoved ext m p C = None \<longleftrightarrow>
     Contains p (getChangefeedMatcher (changeFeedID m)) \<and> Ext p = ''.log'' \<and>
     (\<exists>ts ty. ParseLogFileName ext p = Some (ts, ty) \<and> ty \<noteq> ''row'' \<and> ty \<noteq> ''ddl'')"
  by (auto simp: shouldRemoved_def LogEXT_def RedoRowLogFileType_def RedoDDLLogFileType_def
        Let_def split: option.splits)

text \<open>
  C5. A tick of \<open>bgGC\<close> that sweeps (the flushed checkpointTs \<open>C\<close> differs from the
  one of the last sweep), when it returns nil, has removed exactly the stored files whose
  path contains the changefeed matcher (\<open>_<feed>_\<close> for the default namespace,
  \<open>_<namespace>_<feed>_\<close> otherwise), whose extension is \<open>.log\<close>, whose name parses
  to type row or ddl and to a maxCommitTs below \<open>C\<close>. Whatever it returns, a file whose
  name parses to maxCommitTs \<open>C\<close> is retained. When a matching \<open>.log\<close> file parses to
  another type and the listing of the store succeeds, the tick panics and removes nothing.
\<close>

theorem bgGC_tick_sweep:
  assumes st: "extStorage m = Some st"
    and sweep: "getFlushed (metaCheckpointTs m) \<noteq> preCkpt"
  shows "\<exists>r m' st'.
     bgGC_tick ext m preCkpt = (r, m', getFlushed (metaCheckpointTs m)) \<and>
     extStorage m' = Some st' \<and>
     getChangefeedMatcher (changeFeedID m) =
       (if Namespace (changeFeedID m) = ''default'' then ''_'' @ ID (changeFeedID m) @ ''_''
        else ''_'' @ Namespace (changeFeedID m) @ ''_'' @ ID (changeFeedID m) @ ''_'') \<and>
     (r = Nil \<longrightarrow>
        files st' =
          filter (\<lambda>(p, d). \<not> (Contains p (getChangefeedMatcher (changeFeedID m)) \<and>
                              Ext p = ''.log'' \<and>
                              (\<exists>ts ty. ParseLogFileName ext p = Some (ts, ty) \<and>
                                 (ty = ''row'' \<or> ty = ''ddl'') \<and>
                                 ts < getFlushed (metaCheckpointTs m))))
            (files st)) \<and>
     (\<forall>(p, d)\<in>set (files st).
        (\<exists>ty. ParseLogFileName ext p = Some (getFlushed (metaCheckpointTs m), ty)) \<longrightarrow>
        (p, d) \<in> set (files st')) \<and>
     ((\<exists>(p, d)\<in>set (files st).
         Contains p (getChangefeedMatcher (changeFeedID m)) \<and> Ext p = ''.log'' \<and>
         (\<exists>ts ty. ParseLogFileName ext p = Some (ts, ty) \<and> ty \<noteq> ''row'' \<and> ty \<noteq> ''ddl'')) \<and>
      (faults st = [] \<or> hd (faults st) = None) \<longrightarrow>
      r = Panic \<and> files st' = files st)"
proof -
  let ?C = "getFlushed (metaCheckpointTs m)"
  let ?pred = "\<lambda>path. shouldRemoved ext m path ?C"
  from RemoveFilesIf_result [of st ?pred] obtain r st' w dels gone
    where rf: "RemoveFilesIf st ?pred = (r, st')"
      and tr: "trace st' = trace st @ (CallWalkDir, w) # dels"
      and w: "w = (case faults st of [] \<Rightarrow> None | f # fs \<Rightarrow> f)"
      and g: "set gone \<subseteq> {p \<in> fst ` set (files st). ?pred p = Some True}"
      and f: "files st' = filter (\<lambda>(p, d). p \<notin> set gone) (files st)"
      and c: "case w of
        Some e \<Rightarrow> r = Err (ErrExternalStorageAPI e) \<and> dels = [] \<and> gone = []
      | None \<Rightarrow>
          if \<exists>p\<in>fst ` set (files st). ?pred p = None then r = Panic \<and> dels = [] \<and> gone = []
          else (r = Nil \<or> r = Err (ErrExternalStorageAPI IOFailure)) \<and>
               (r = Nil \<longrightarrow> files st' = filter (\<lambda>(p, d). ?pred p \<noteq> Some True) (files st))"
    by blast
  let ?m' = "m\<lparr>extStorage := Some st'\<rparr>"
  have 1: "bgGC_tick ext m preCkpt = (r, ?m', ?C)"
    using st sweep rf by (simp add: bgGC_tick_def Let_def)
  have 2: "extStorage ?m' = Some st'" by simp
  have matcher: "getChangefeedMatcher (changeFeedID m) =
       (if Namespace (changeFeedID m) = ''default'' then ''_'' @ ID (changeFeedID m) @ ''_''
        else ''_'' @ Namespace (changeFeedID m) @ ''_'' @ ID (changeFeedID m) @ ''_'')"
    by (simp add: getChangefeedMatcher_def DefaultNamespace_def)
  have 3: "r = Nil \<longrightarrow>
        files st' =
          filter (\<lambda>(p, d). \<not> (Contains p (getChangefeedMatcher (changeFeedID m)) \<and>
                              Ext p = ''.log'' \<and>
                              (\<exists>ts ty. ParseLogFileName ext p = Some (ts, ty) \<and>
                                 (ty = ''row'' \<or> ty = ''ddl'') \<and> ts < ?C)))
            (files st)"
  proof
    assume "r = Nil"
    with c have "files st' = filter (\<lambda>(p, d). ?pred p \<noteq> Some True) (files st)"
      by (cases w) (auto split: if_splits)
    then show "files st' =
          filter (\<lambda>(p, d). \<not> (Contains p (getChangefeedMatcher (changeFeedID m)) \<and>
                              Ext p = ''.log'' \<and>
                              (\<exists>ts ty. ParseLogFileName ext p = Some (ts, ty) \<and>
                                 (ty = ''row'' \<or> ty = ''ddl'') \<and> ts < ?C)))
            (files st)"
      by (simp only: shouldRemoved_True)
  qed
  have 4: "\<forall>(p, d)\<in>set (files st).
        (\<exists>ty. ParseLogFileName ext p = Some (?C, ty)) \<longrightarrow> (p, d) \<in> set (files st')"
  proof (clarify)
    fix p d ty
    assume in_st: "(p, d) \<in> set (files st)" and parse: "ParseLogFileName ext p = Some (?C, ty)"
    have "?pred p \<noteq> Some True"
      using parse by (simp add: shouldRemoved_True)
    with g have "p \<notin> set gone" by auto
    with in_st f show "(p, d) \<in> set (files st')" by simp
  qed
  have 5: "(\<exists>(p, d)\<in>set (files st).
         Contains p (getChangefeedMatcher (changeFeedID m)) \<and> Ext p = ''.log'' \<and>
         (\<exists>ts ty. ParseLogFileName ext p = Some (ts, ty) \<and> ty \<noteq> ''row'' \<and> ty \<noteq> ''ddl'')) \<and>
      (faults st = [] \<or> hd (faults st) = None) \<longrightarrow>
      r = Panic \<and> files st' = files st"
  proof (intro impI, elim conjE)
    assume u: "\<exists>(p, d)\<in>set (files st).
         Contains p (getChangefeedMatcher (changeFeedID m)) \<and> Ext p = ''.log'' \<and>
         (\<exists>ts ty. ParseLogFileName ext p = Some (ts, ty) \<and> ty \<noteq> ''row'' \<and> ty \<noteq> ''ddl'')"
      and ok: "faults st = [] \<or> hd (faults st) = None"
    from ok w have "w = None" by (cases "faults st") auto
    moreover from u have "\<exists>p\<in>fst ` set (files st). ?pred p = None"
      by (simp only: shouldRemoved_None) force
    ultimately have "r = Panic \<and> gone = []" using c by simp
    with f show "r = Panic \<and> files st' = files st" by simp
  qed
  show ?thesis
    by (rule exI [of _ r], rule exI [of _ ?m'], rule exI [of _ st'])
       (intro conjI 1 2 matcher 3 4 5)
qed

lemma S5_tick:
  "fst (bgGC_tick example_externals S5_manager 0) = Nil"
  by (simp add: bgGC_tick_def S5_manager_def S5_store_def zeroManager_def RemoveFilesIf_def
        shouldRemoved_def example_parse_def storage_defs name_defs example_defs Let_def)

text \<open>
  Scenario S5: of the files of the feed at 90, 100 and 110, only the one at 90 is removed;
  the log file of the other feed, at 7, and the meta file of the feed are retained.
\<close>

theorem bgGC_tick_sweep_witness:
  "extStorage S5_manager = Some S5_store \<and>
   getFlushed (metaCheckpointTs S5_manager) = 100 \<and>
   fst (bgGC_tick example_externals S5_manager 0) = Nil \<and>
   ParseLogFileName example_externals ''cap_default_other_row_7_uuid.log'' = Some (7, ''row'') \<and>
   ParseLogFileName example_externals ''cap_default_feed_meta_uuid.meta'' = Some (0, ''meta'') \<and>
   map_option files (extStorage (fst (snd (bgGC_tick example_externals S5_manager 0)))) =
     Some [(''cap_default_other_row_7_uuid.log'', ''rows of another feed''),
           (''cap_default_feed_meta_uuid.meta'', ''meta''),
           (''cap_default_feed_ddl_100_uuid.log'', ''ddl at 100''),
           (''cap_default_feed_row_110_uuid.log'', ''rows up to 110'')]"
proof -
  have st: "extStorage S5_manager = Some S5_store"
    by (simp add: S5_manager_def zeroManager_def)
  have C: "getFlushed (metaCheckpointTs S5_manager) = 100"
    by (simp add: S5_manager_def zeroManager_def getFlushed_def)
  then have sweep: "getFlushed (metaCheckpointTs S5_manager) \<noteq> 0" by simp
  from bgGC_tick_sweep [OF st sweep, of example_externals]
  obtain r m' st' where t: "bgGC_tick example_externals S5_manager 0 = (r, m', 100)"
      "extStorage m' = Some st'"
      "r = Nil \<longrightarrow>
        files st' =
          filter (\<lambda>(p, d). \<not> (Contains p (getChangefeedMatcher (changeFeedID S5_manager)) \<and>
                              Ext p = ''.log'' \<and>
                              (\<exists>ts ty. ParseLogFileName example_externals p = Some (ts, ty) \<and>
                                 (ty = ''row'' \<or> ty = ''ddl'') \<and>
                                 ts < getFlushed (metaCheckpointTs S5_manager))))
            (files S5_store)"
    unfolding C by (elim exE conjE)
  from t(1) S5_tick have "r = Nil" by simp
  with t have "map_option files (extStorage (fst (snd (bgGC_tick example_externals S5_manager 0)))) =
     Some (filter (\<lambda>(p, d). \<not> (Contains p (getChangefeedMatcher (changeFeedID S5_manager)) \<and>
                              Ext p = ''.log'' \<and>
                              (\<exists>ts ty. ParseLogFileName example_externals p = Some (ts, ty) \<and>
                                 (ty = ''row'' \<or> ty = ''ddl'') \<and>
                                 ts < getFlushed (metaCheckpointTs S5_manager))))
            (files S5_store))"
    by simp
  also have "\<dots> = Some [(''cap_default_other_row_7_uuid.log'', ''rows of another feed''),
           (''cap_default_feed_meta_uuid.meta'', ''meta''),
           (''cap_default_feed_ddl_100_uuid.log'', ''ddl at 100''),
           (''cap_default_feed_row_110_uuid.log'', ''rows up to 110'')]"
    by (simp add: C S5_manager_def S5_store_def zeroManager_def example_parse_def name_defs
          example_defs getFlushed_def Ext_def)
  finally show ?thesis using st C S5_tick by (simp add: example_externals_def example_parse_def)
qed

subsection \<open>The deletion marker\<close>

lemma Contains_sublist: "Contains s sub \<longleftrightarrow> sublist sub s"
  by (induction s) (simp_all add: sublist_Cons_right)

lemma delete_letters: "k < 6 \<Longrightarrow> ''delete_'' ! k \<noteq> CHR ''_''"
proof -
  assume "k < 6"
  then have "k = 0 \<or> k = 1 \<or> k = 2 \<or> k = 3 \<or> k = 4 \<or> k = 5" by arith
  then show ?thesis by (elim disjE) simp_all
qed

lemma marker_no_matcher_aux: "\<not> Contains (''delete_'' @ y) (''_'' @ y @ ''_'')"
proof
  define pre where "pre = ''delete_''"
  have len: "length pre = 7" by (simp add: pre_def)
  assume "Contains (''delete_'' @ y) (''_'' @ y @ ''_'')"
  then obtain ps ss where e: "pre @ y = ps @ (CHR ''_'' # y @ ''_'') @ ss"
    by (auto simp: Contains_sublist sublist_def pre_def)
  then have "length (pre @ y) = length (ps @ (CHR ''_'' # y @ ''_'') @ ss)" by simp
  with len have k: "length ps < 6" by simp
  from e have "(pre @ y) ! length ps = (ps @ (CHR ''_'' # y @ ''_'') @ ss) ! length ps"
    by simp
  moreover have "(pre @ y) ! length ps = pre ! length ps"
    using k len by (simp add: nth_append)
  moreover have "(ps @ (CHR ''_'' # y @ ''_'') @ ss) ! length ps = CHR ''_''"
    by (simp add: nth_append)
  ultimately show False using delete_letters [OF k] by (simp add: pre_def)
qed

lemma marker_no_matcher:
  "\<not> Contains (getDeletedChangefeedMarker cf) (getChangefeedMatcher cf)"
proof (cases "Namespace cf = ''default''")
  case True
  with marker_no_matcher_aux [of "ID cf"] show ?thesis
    by (simp add: getDeletedChangefeedMarker_def getChangefeedMatcher_def DefaultNamespace_def)
next
  case False
  with marker_no_matcher_aux [of "Namespace cf @ ''_'' @ ID cf"] show ?thesis
    by (simp add: getDeletedChangefeedMarker_def getChangefeedMatcher_def DefaultNamespace_def)
qed

lemma sweepPred_True:
  "sweepPred marker matcher p = Some True \<longleftrightarrow> p \<noteq> marker \<and> Contains p matcher"
  by (simp add: sweepPred_def)

lemma sweepPred_not_None: "sweepPred marker matcher p \<noteq> None"
  by (auto simp: sweepPred_def)

lemma sweep_result:
  "\<exists>r st' w dels gone. RemoveFilesIf st (sweepPred marker matcher) = (r, st') \<and>
     trace st' = trace st @ (CallWalkDir, w) # dels \<and>
     (\<forall>e. (CallDeleteFile marker, e) \<notin> set dels) \<and>
     set gone \<subseteq> {p. p \<noteq> marker \<and> Contains p matcher} \<and>
     files st' = filter (\<lambda>(p, d). p \<notin> set gone) (files st) \<and>
     (r = Nil \<or> (\<exists>e. r = Err (ErrExternalStorageAPI e))) \<and>
     (r = Nil \<longrightarrow> files st' = filter (\<lambda>(p, d). p = marker \<or> \<not> Contains p matcher) (files st))"
proof -
  let ?pred = "sweepPred marker matcher"
  from RemoveFilesIf_result [of st ?pred] obtain r st' w dels gone
    where rf: "RemoveFilesIf st ?pred = (r, st')"
      and tr: "trace st' = trace st @ (CallWalkDir, w) # dels"
      and w: "w = (case faults st of [] \<Rightarrow> None | f # fs \<Rightarrow> f)"
      and d: "fst ` set dels \<subseteq> CallDeleteFile ` {p \<in> fst ` set (files st). ?pred p = Some True}"
      and g: "set gone \<subseteq> {p \<in> fst ` set (files st). ?pred p = Some True}"
      and f: "files st' = filter (\<lambda>(p, d). p \<notin> set gone) (files st)"
      and c: "case w of
        Some e \<Rightarrow> r = Err (ErrExternalStorageAPI e) \<and> dels = [] \<and> gone = []
      | None \<Rightarrow>
          if \<exists>p\<in>fst ` set (files st). ?pred p = None then r = Panic \<and> dels = [] \<and> gone = []
          else (r = Nil \<or> r = Err (ErrExternalStorageAPI IOFailure)) \<and>
               (r = Nil \<longrightarrow> files st' = filter (\<lambda>(p, d). ?pred p \<noteq> Some True) (files st))"
    by blast
  have 1: "\<forall>e. (CallDeleteFile marker, e) \<notin> set dels"
  proof (intro allI notI)
    fix e assume "(CallDeleteFile marker, e) \<in> set dels"
    then have "CallDeleteFile marker \<in> fst ` set dels" by force
    with d show False by (auto simp: sweepPred_True)
  qed
  have 2: "set gone \<subseteq> {p. p \<noteq> marker \<and> Contains p matcher}"
    using g by (auto simp: sweepPred_True)
  have 3: "r = Nil \<or> (\<exists>e. r = Err (ErrExternalStorageAPI e))"
    using c by (cases w) (auto simp: sweepPred_not_None)
  have 4: "r = Nil \<longrightarrow> files st' = filter (\<lambda>(p, d). p = marker \<or> \<not> Contains p matcher) (files st)"
  proof
    assume "r = Nil"
    with c have "files st' = filter (\<lambda>(p, d). ?pred p \<noteq> Some True) (files st)"
      by (cases w) (auto simp: sweepPred_not_None)
    then show "files st' = filter (\<lambda>(p, d). p = marker \<or> \<not> Contains p matcher) (files st)"
      by (simp add: sweepPred_True)
  qed
  show ?thesis
    by (rule exI [of _ r], rule exI [of _ st'], rule exI [of _ w], rule exI [of _ dels],
        rule exI [of _ gone]) (intro conjI rf tr 1 2 f 3 4)
qed

text \<open>
  C7. \<open>preCleanupExtStorage\<close> first asks whether the deletion marker exists. When the
  marker is absent it removes nothing, and it succeeds (unless the existence check itself
  fails). When the marker is present and the call returns nil, it has removed every file
  whose path contains the changefeed matcher, and the marker. A not-found result of the
  delete of the marker is not a failure. A file that is not the marker and does not
  contain the matcher is retained in every case.
\<close>

theorem preCleanupExtStorage_sweep:
  assumes st: "extStorage m = Some st"
  shows "\<exists>r m' st' calls.
     preCleanupExtStorage m = (r, m') \<and> extStorage m' = Some st' \<and> trace st' = trace st @ calls \<and>
     (map_of (files st) (getDeletedChangefeedMarker (changeFeedID m)) = None \<longrightarrow>
        files st' = files st \<and>
        (\<exists>w. calls = [(CallFileExists (getDeletedChangefeedMarker (changeFeedID m)), w)] \<and>
             r = (case w of None \<Rightarrow> Nil | Some e \<Rightarrow> Err (ErrExternalStorageAPI e)))) \<and>
     (map_of (files st) (getDeletedChangefeedMarker (changeFeedID m)) \<noteq> None \<and> r = Nil \<longrightarrow>
        files st' =
          filter (\<lambda>(p, d). p \<noteq> getDeletedChangefeedMarker (changeFeedID m) \<and>
                           \<not> Contains p (getChangefeedMatcher (changeFeedID m)))
            (files st)) \<and>
     ((CallDeleteFile (getDeletedChangefeedMarker (changeFeedID m)), Some NotExist) \<in> set calls \<longrightarrow>
        r = Nil) \<and>
     (\<forall>(p, d)\<in>set (files st).
        p \<noteq> getDeletedChangefeedMarker (changeFeedID m) \<and>
        \<not> Contains p (getChangefeedMatcher (changeFeedID m)) \<longrightarrow> (p, d) \<in> set (files st'))"
proof -
  let ?marker = "getDeletedChangefeedMarker (changeFeedID m)"
  let ?matcher = "getChangefeedMatcher (changeFeedID m)"
  let ?Q = "\<lambda>r m' st' calls.
     preCleanupExtStorage m = (r, m') \<and> extStorage m' = Some st' \<and> trace st' = trace st @ calls \<and>
     (map_of (files st) ?marker = None \<longrightarrow>
        files st' = files st \<and>
        (\<exists>w. calls = [(CallFileExists ?marker, w)] \<and>
             r = (case w of None \<Rightarrow> Nil | Some e \<Rightarrow> Err (ErrExternalStorageAPI e)))) \<and>
     (map_of (files st) ?marker \<noteq> None \<and> r = Nil \<longrightarrow>
        files st' = filter (\<lambda>(p, d). p \<noteq> ?marker \<and> \<not> Contains p ?matcher) (files st)) \<and>
     ((CallDeleteFile ?marker, Some NotExist) \<in> set calls \<longrightarrow> r = Nil) \<and>
     (\<forall>(p, d)\<in>set (files st). p \<noteq> ?marker \<and> \<not> Contains p ?matcher \<longrightarrow> (p, d) \<in> set (files st'))"
  obtain w0 st1 where fe: "FileExists st ?marker =
         ((case w0 of Some e \<Rightarrow> Inl e | None \<Rightarrow> Inr (map_of (files st) ?marker \<noteq> None)), st1)"
      and tr1: "trace st1 = trace st @ [(CallFileExists ?marker, w0)]"
      and f1: "files st1 = files st"
    using FileExists_result [of st ?marker] by (elim exE conjE)
  have early: "?Q r (m\<lparr>extStorage := Some st1\<rparr>) st1 [(CallFileExists ?marker, w0)]"
    if pc: "preCleanupExtStorage m = (r, m\<lparr>extStorage := Some st1\<rparr>)"
      and r: "r = (case w0 of None \<Rightarrow> Nil | Some e \<Rightarrow> Err (ErrExternalStorageAPI e))"
      and a: "w0 = None \<longrightarrow> map_of (files st) ?marker = None" for r
  proof (intro conjI)
    show "preCleanupExtStorage m = (r, m\<lparr>extStorage := Some st1\<rparr>)" by (rule pc)
    show "extStorage (m\<lparr>extStorage := Some st1\<rparr>) = Some st1" by simp
    show "trace st1 = trace st @ [(CallFileExists ?marker, w0)]" by (rule tr1)
    show "map_of (files st) ?marker = None \<longrightarrow>
        files st1 = files st \<and>
        (\<exists>w. [(CallFileExists ?marker, w0)] = [(CallFileExists ?marker, w)] \<and>
             r = (case w of None \<Rightarrow> Nil | Some e \<Rightarrow> Err (ErrExternalStorageAPI e)))"
      using f1 r by simp
    show "map_of (files st) ?marker \<noteq> None \<and> r = Nil \<longrightarrow>
        files st1 = filter (\<lambda>(p, d). p \<noteq> ?marker \<and> \<not> Contains p ?matcher) (files st)"
      using r a by (cases w0) simp_all
    show "(CallDeleteFile ?marker, Some NotExist) \<in> set [(CallFileExists ?marker, w0)] \<longrightarrow> r = Nil"
      by simp
    show "\<forall>(p, d)\<in>set (files st). p \<noteq> ?marker \<and> \<not> Contains p ?matcher \<longrightarrow> (p, d) \<in> set (files st1)"
      using f1 by auto
  qed
  show ?thesis
  proof (cases w0)
    case (Some e)
    with fe st have "preCleanupExtStorage m = (Err (ErrExternalStorageAPI e), m\<lparr>extStorage := Some st1\<rparr>)"
      by (simp add: preCleanupExtStorage_def Let_def)
    then have "?Q (Err (ErrExternalStorageAPI e)) (m\<lparr>extStorage := Some st1\<rparr>) st1
                 [(CallFileExists ?marker, w0)]"
      by (rule early) (simp_all add: Some)
    then show ?thesis by (intro exI)
  next
    case None
    show ?thesis
    proof (cases "map_of (files st) ?marker = None")
      case True
      with fe st None have "preCleanupExtStorage m = (Nil, m\<lparr>extStorage := Some st1\<rparr>)"
        by (simp add: preCleanupExtStorage_def Let_def)
      then have "?Q Nil (m\<lparr>extStorage := Some st1\<rparr>) st1 [(CallFileExists ?marker, w0)]"
        by (rule early) (simp_all add: None True)
      then show ?thesis by (intro exI)
    next
      case False
      obtain r2 st2 w dels gone
        where sw: "RemoveFilesIf st1 (sweepPred ?marker ?matcher) = (r2, st2)"
          and tr2: "trace st2 = trace st1 @ (CallWalkDir, w) # dels"
          and nd: "\<forall>e. (CallDeleteFile ?marker, e) \<notin> set dels"
          and g: "set gone \<subseteq> {p. p \<noteq> ?marker \<and> Contains p ?matcher}"
          and f2: "files st2 = filter (\<lambda>(p, d). p \<notin> set gone) (files st1)"
          and r2: "r2 = Nil \<or> (\<exists>e. r2 = Err (ErrExternalStorageAPI e))"
          and n2: "r2 = Nil \<longrightarrow>
             files st2 = filter (\<lambda>(p, d). p = ?marker \<or> \<not> Contains p ?matcher) (files st1)"
        using sweep_result [of st1 ?marker ?matcher] by (elim exE conjE)
      have keep2: "\<forall>(p, d)\<in>set (files st). p \<noteq> ?marker \<and> \<not> Contains p ?matcher
                     \<longrightarrow> (p, d) \<in> set (files st2)"
        using f2 g f1 by auto
      obtain r3 st3 where d3: "DeleteFile st2 ?marker = (r3, st3)"
          and tr3: "trace st3 = trace st2 @ [(CallDeleteFile ?marker, r3)]"
          and f3: "files st3 = (if r3 = Some IOFailure then files st2
                        else AList.delete ?marker (files st2))"
        using DeleteFile_result [of st2 ?marker] by (elim exE conjE)
      show ?thesis
      proof (cases "r2 = Nil")
        case r2n: False
        with r2 obtain e where e: "r2 = Err (ErrExternalStorageAPI e)" by blast
        let ?calls = "(CallFileExists ?marker, w0) # (CallWalkDir, w) # dels"
        have "?Q r2 (m\<lparr>extStorage := Some st2\<rparr>) st2 ?calls"
        proof (intro conjI)
          show "preCleanupExtStorage m = (r2, m\<lparr>extStorage := Some st2\<rparr>)"
            using fe st None False sw e by (simp add: preCleanupExtStorage_def Let_def)
          show "extStorage (m\<lparr>extStorage := Some st2\<rparr>) = Some st2" by simp
          show "trace st2 = trace st @ ?calls" using tr1 tr2 by simp
          show "map_of (files st) ?marker = None \<longrightarrow>
            files st2 = files st \<and>
            (\<exists>w. ?calls = [(CallFileExists ?marker, w)] \<and>
                 r2 = (case w of None \<Rightarrow> Nil | Some e \<Rightarrow> Err (ErrExternalStorageAPI e)))"
            using False by simp
          show "map_of (files st) ?marker \<noteq> None \<and> r2 = Nil \<longrightarrow>
            files st2 = filter (\<lambda>(p, d). p \<noteq> ?marker \<and> \<not> Contains p ?matcher) (files st)"
            using r2n by simp
          show "(CallDeleteFile ?marker, Some NotExist) \<in> set ?calls \<longrightarrow> r2 = Nil"
            using nd by simp
          show "\<forall>(p, d)\<in>set (files st). p \<noteq> ?marker \<and> \<not> Contains p ?matcher
                  \<longrightarrow> (p, d) \<in> set (files st2)"
            by (rule keep2)
        qed
        then show ?thesis by (intro exI)
      next
        case r2n: True
        define r where "r = (if r3 = Some IOFailure then Err (ErrExternalStorageAPI IOFailure)
                             else Nil)"
        let ?calls = "(CallFileExists ?marker, w0) # (CallWalkDir, w) # dels
                        @ [(CallDeleteFile ?marker, r3)]"
        have "?Q r (m\<lparr>extStorage := Some st3\<rparr>) st3 ?calls"
        proof (intro conjI)
          show "preCleanupExtStorage m = (r, m\<lparr>extStorage := Some st3\<rparr>)"
          proof (cases r3)
            case None
            with fe st \<open>w0 = None\<close> False sw r2n d3 show ?thesis
              by (simp add: preCleanupExtStorage_def Let_def r_def)
          next
            case (Some e3)
            with fe st \<open>w0 = None\<close> False sw r2n d3 show ?thesis
              by (cases e3)
                 (simp_all add: preCleanupExtStorage_def Let_def r_def IsNotExistInExtStorage_def)
          qed
          show "extStorage (m\<lparr>extStorage := Some st3\<rparr>) = Some st3" by simp
          show "trace st3 = trace st @ ?calls" using tr1 tr2 tr3 by simp
          show "map_of (files st) ?marker = None \<longrightarrow>
            files st3 = files st \<and>
            (\<exists>w. ?calls = [(CallFileExists ?marker, w)] \<and>
                 r = (case w of None \<Rightarrow> Nil | Some e \<Rightarrow> Err (ErrExternalStorageAPI e)))"
            using False by simp
          show "map_of (files st) ?marker \<noteq> None \<and> r = Nil \<longrightarrow>
            files st3 = filter (\<lambda>(p, d). p \<noteq> ?marker \<and> \<not> Contains p ?matcher) (files st)"
          proof (intro impI, elim conjE)
            assume "r = Nil"
            then have "r3 \<noteq> Some IOFailure" by (auto simp: r_def split: if_splits)
            with f3 n2 r2n f1
            have "files st3 = AList.delete ?marker
                    (filter (\<lambda>(p, d). p = ?marker \<or> \<not> Contains p ?matcher) (files st))"
              by simp
            also have "\<dots> = filter (\<lambda>(p, d). p \<noteq> ?marker \<and> \<not> Contains p ?matcher) (files st)"
              by (auto simp: AList.delete_eq intro: filter_cong)
            finally show "files st3 =
                filter (\<lambda>(p, d). p \<noteq> ?marker \<and> \<not> Contains p ?matcher) (files st)" .
          qed
          show "(CallDeleteFile ?marker, Some NotExist) \<in> set ?calls \<longrightarrow> r = Nil"
            using nd by (auto simp: r_def)
          show "\<forall>(p, d)\<in>set (files st). p \<noteq> ?marker \<and> \<not> Contains p ?matcher
                  \<longrightarrow> (p, d) \<in> set (files st3)"
            using keep2 f3 by (auto simp: AList.delete_eq)
        qed
        then show ?thesis by (intro exI)
      qed
    qed
  qed
qed

lemma S4_run:
  "fst (preCleanupExtStorage S4_manager) = Nil \<and>
   map_option trace (extStorage (snd (preCleanupExtStorage S4_manager))) =
     Some [(CallFileExists ''delete_feed'', None), (CallWalkDir, None),
           (CallDeleteFile ''cap_default_feed_meta_uuid.meta'', None),
           (CallDeleteFile ''cap_default_feed_row_90_uuid.log'', None),
           (CallDeleteFile ''cap_default_feed_ddl_100_uuid.log'', None),
           (CallDeleteFile ''delete_feed'', Some NotExist)]"
  by (simp add: preCleanupExtStorage_def S4_manager_def S4_store_def NewMetaManager_def
        zeroManager_def RemoveFilesIf_def sweepPred_def storage_defs name_defs example_defs
        Let_def)

text \<open>
  Scenario S4: the three files of the feed and the marker are removed, the file of the
  other feed is retained; the not-found result of the last delete is no failure.
\<close>

theorem preCleanupExtStorage_sweep_witness:
  "extStorage S4_manager = Some S4_store \<and>
   fst (preCleanupExtStorage S4_manager) = Nil \<and>
   map_option files (extStorage (snd (preCleanupExtStorage S4_manager))) =
     Some [(''cap_default_other_row_7_uuid.log'', ''rows of another feed'')]"
proof -
  have st: "extStorage S4_manager = Some S4_store"
    by (simp add: S4_manager_def NewMetaManager_def zeroManager_def)
  have mk: "map_of (files S4_store) (getDeletedChangefeedMarker (changeFeedID S4_manager)) \<noteq> None"
    by (simp add: S4_manager_def S4_store_def NewMetaManager_def zeroManager_def name_defs
          example_defs)
  from preCleanupExtStorage_sweep [OF st]
  obtain r m' st' where t: "preCleanupExtStorage S4_manager = (r, m')" "extStorage m' = Some st'"
      "map_of (files S4_store) (getDeletedChangefeedMarker (changeFeedID S4_manager)) \<noteq> None
         \<and> r = Nil \<longrightarrow>
        files st' =
          filter (\<lambda>(p, d). p \<noteq> getDeletedChangefeedMarker (changeFeedID S4_manager) \<and>
                           \<not> Contains p (getChangefeedMatcher (changeFeedID S4_manager)))
            (files S4_store)"
    by (elim exE conjE)
  from t(1) S4_run have "r = Nil" by simp
  with t mk have "map_option files (extStorage (snd (preCleanupExtStorage S4_manager))) =
     Some (filter (\<lambda>(p, d). p \<noteq> getDeletedChangefeedMarker (changeFeedID S4_manager) \<and>
                           \<not> Contains p (getChangefeedMatcher (changeFeedID S4_manager)))
            (files S4_store))"
    by simp
  also have "\<dots> = Some [(''cap_default_other_row_7_uuid.log'', ''rows of another feed'')]"
    by (simp add: S4_manager_def S4_store_def NewMetaManager_def zeroManager_def name_defs
          example_defs)
  finally show ?thesis using st S4_run by simp
qed

lemma map_of_delete_same: "map_of (AList.delete k al) k = None"
  by (induction al) auto

lemma preCleanup_removes_marker:
  assumes st: "extStorage m = Some st"
    and ok: "preCleanupExtStorage m = (Nil, m')"
    and there: "map_of (files st) (getDeletedChangefeedMarker (changeFeedID m)) \<noteq> None"
  shows "\<exists>st'. extStorage m' = Some st' \<and>
           map_of (files st') (getDeletedChangefeedMarker (changeFeedID m)) = None"
proof -
  let ?marker = "getDeletedChangefeedMarker (changeFeedID m)"
  let ?matcher = "getChangefeedMatcher (changeFeedID m)"
  obtain w st1 where fe: "FileExists st ?marker =
        ((case w of Some e \<Rightarrow> Inl e | None \<Rightarrow> Inr (map_of (files st) ?marker \<noteq> None)), st1)"
      and tr1: "trace st1 = trace st @ [(CallFileExists ?marker, w)]"
    using FileExists_result [of st ?marker] by (elim exE conjE)
  obtain r2 st2 w2 dels gone
    where sw: "RemoveFilesIf st1 (sweepPred ?marker ?matcher) = (r2, st2)"
      and tr2: "trace st2 = trace st1 @ (CallWalkDir, w2) # dels"
    using sweep_result [of st1 ?marker ?matcher] by (elim exE conjE)
  obtain d st3 where df: "DeleteFile st2 ?marker = (d, st3)"
      and tr3: "trace st3 = trace st2 @ [(CallDeleteFile ?marker, d)]"
      and f3: "files st3 = (if d = Some IOFailure then files st2
                            else AList.delete ?marker (files st2))"
    using DeleteFile_result [of st2 ?marker] by (elim exE conjE)
  have wn: "w = None"
    using ok st fe by (cases w) (simp_all add: preCleanupExtStorage_def Let_def)
  have r2: "r2 = Nil"
    using ok st fe sw there wn
    by (cases r2) (simp_all add: preCleanupExtStorage_def Let_def)
  have dn: "d \<noteq> Some IOFailure"
  proof
    assume "d = Some IOFailure"
    with ok st fe sw there wn r2 df show False
      by (simp add: preCleanupExtStorage_def Let_def IsNotExistInExtStorage_def)
  qed
  have m': "m' = m\<lparr>extStorage := Some st3\<rparr>"
    using ok st fe sw there wn r2 df
    by (cases d) (simp_all add: preCleanupExtStorage_def Let_def split: if_splits)
  have "map_of (files st3) ?marker = None"
    using f3 dn by (simp add: map_of_delete_same)
  with m' show ?thesis by simp
qed

lemmas cleanup_defs = Cleanup_def deleteAllLogs_def NewMetaManager_def zeroManager_def
  RemoveFilesIf_def sweepPred_def

text \<open>
  C10, as stated, fails twice. On a manager without storage \<open>Cleanup\<close> returns nil
  and writes no marker. And a marker is not removed by \<open>preCleanupExtStorage\<close> only:
  after \<open>Cleanup\<close> of the feed \<open>g\<close> of the namespace \<open>f\<close> has left the marker
  \<open>delete_f_g\<close>, \<open>Cleanup\<close> of the feed \<open>f\<close> of the default namespace, on the
  same root, removes that marker, which contains its matcher \<open>_f_\<close>.
\<close>

theorem Cleanup_without_storage_counterexample:
  "enabled blackhole_manager \<and>
   fst (Cleanup blackhole_manager) = Nil \<and>
   extStorage (snd (Cleanup blackhole_manager)) = None \<and>
   getDeletedChangefeedMarker (changeFeedID fg_manager) = ''delete_f_g'' \<and>
   fst (Cleanup fg_manager) = Nil \<and>
   map_option files (extStorage (snd (Cleanup fg_manager))) = Some [(''delete_f_g'', ''D'')] \<and>
   map_option files (extStorage f_manager) = Some [(''delete_f_g'', ''D'')] \<and>
   getChangefeedMatcher (changeFeedID f_manager) = ''_f_'' \<and>
   fst (Cleanup f_manager) = Nil \<and>
   map_option files (extStorage (snd (Cleanup f_manager))) = Some [(''delete_f'', ''D'')]"
  by (simp add: blackhole_manager_def fg_manager_def f_manager_def cleanup_defs storage_defs
        name_defs example_defs Let_def)

text \<open>
  C10, amended. After a call of \<open>Cleanup\<close> that returns nil on a manager with
  external storage, the deletion marker of the feed (\<open>delete_<feed>\<close> for the default
  namespace, \<open>delete_<namespace>_<feed>\<close> otherwise) is in the store with the content
  \<open>D\<close>: the write of the marker is the first call on the store, no later call of this
  \<open>Cleanup\<close> deletes the marker, and the predicate of the sweep rejects it. The
  predicate of the garbage collection of the feed rejects the marker as well. At a later
  startup of the feed, on any store that holds the marker, \<open>preCleanupExtStorage\<close>
  removes it when it returns nil.
\<close>

theorem Cleanup_keeps_marker:
  assumes st: "extStorage m = Some st" and ok: "Cleanup m = (Nil, m')"
  shows "\<exists>st' calls.
     extStorage m' = Some st' \<and>
     trace st' = trace st @ (CallWriteFile (getDeletedChangefeedMarker (changeFeedID m)) ''D'', None) # calls \<and>
     (\<forall>e. (CallDeleteFile (getDeletedChangefeedMarker (changeFeedID m)), e) \<notin> set calls) \<and>
     map_of (files st') (getDeletedChangefeedMarker (changeFeedID m)) = Some ''D'' \<and>
     getDeletedChangefeedMarker (changeFeedID m) =
       (if Namespace (changeFeedID m) = ''default'' then ''delete_'' @ ID (changeFeedID m)
        else ''delete_'' @ Namespace (changeFeedID m) @ ''_'' @ ID (changeFeedID m)) \<and>
     sweepPred (getDeletedChangefeedMarker (changeFeedID m)) (getChangefeedMatcher (changeFeedID m))
       (getDeletedChangefeedMarker (changeFeedID m)) = Some False \<and>
     (\<forall>C. shouldRemoved ext m' (getDeletedChangefeedMarker (changeFeedID m)) C = Some False) \<and>
     (\<forall>m2 st2 m2'.
        changeFeedID m2 = changeFeedID m \<longrightarrow> extStorage m2 = Some st2 \<longrightarrow>
        map_of (files st2) (getDeletedChangefeedMarker (changeFeedID m)) \<noteq> None \<longrightarrow>
        preCleanupExtStorage m2 = (Nil, m2') \<longrightarrow>
        (\<exists>st3. extStorage m2' = Some st3 \<and>
           map_of (files st3) (getDeletedChangefeedMarker (changeFeedID m)) = None))"
proof -
  let ?marker = "getDeletedChangefeedMarker (changeFeedID m)"
  let ?matcher = "getChangefeedMatcher (changeFeedID m)"
  obtain w st1 where wf: "WriteFile st ?marker ''D'' = (w, st1)"
      and tr1: "trace st1 = trace st @ [(CallWriteFile ?marker ''D'', w)]"
      and f1: "files st1 = (if w = None then AList.update ?marker ''D'' (files st) else files st)"
    using WriteFile_result [of st ?marker "''D''"] by (elim exE conjE)
  obtain r2 st2 w2 dels gone
    where sw: "RemoveFilesIf st1 (sweepPred ?marker ?matcher) = (r2, st2)"
      and tr2: "trace st2 = trace st1 @ (CallWalkDir, w2) # dels"
      and nd: "\<forall>e. (CallDeleteFile ?marker, e) \<notin> set dels"
      and g: "set gone \<subseteq> {p. p \<noteq> ?marker \<and> Contains p ?matcher}"
      and f2: "files st2 = filter (\<lambda>(p, d). p \<notin> set gone) (files st1)"
    using sweep_result [of st1 ?marker ?matcher] by (elim exE conjE)
  have wn: "w = None"
    using ok st wf by (cases w) (simp_all add: Cleanup_def deleteAllLogs_def Let_def)
  with ok st wf sw have m': "m' = m\<lparr>extStorage := Some st2\<rparr>"
    by (simp add: Cleanup_def deleteAllLogs_def Let_def)
  have 1: "extStorage m' = Some st2" by (simp add: m')
  have 2: "trace st2 = trace st @ (CallWriteFile ?marker ''D'', None) # (CallWalkDir, w2) # dels"
    using tr1 tr2 wn by simp
  have 3: "\<forall>e. (CallDeleteFile ?marker, e) \<notin> set ((CallWalkDir, w2) # dels)"
    using nd by simp
  have "map_of (files st1) ?marker = Some ''D''"
    using f1 wn by (simp add: update_conv')
  moreover have "?marker \<notin> set gone" using g by auto
  ultimately have 4: "map_of (files st2) ?marker = Some ''D''"
    unfolding f2 by (intro map_of_filter_in) simp_all
  have 5: "?marker =
       (if Namespace (changeFeedID m) = ''default'' then ''delete_'' @ ID (changeFeedID m)
        else ''delete_'' @ Namespace (changeFeedID m) @ ''_'' @ ID (changeFeedID m))"
    by (simp add: getDeletedChangefeedMarker_def DefaultNamespace_def)
  have 6: "sweepPred ?marker ?matcher ?marker = Some False"
    by (simp add: sweepPred_def)
  have 7: "\<forall>C. shouldRemoved ext m' ?marker C = Some False"
    using marker_no_matcher [of "changeFeedID m"] by (simp add: shouldRemoved_def m')
  have 8: "\<forall>m2 st2 m2'.
        changeFeedID m2 = changeFeedID m \<longrightarrow> extStorage m2 = Some st2 \<longrightarrow>
        map_of (files st2) ?marker \<noteq> None \<longrightarrow>
        preCleanupExtStorage m2 = (Nil, m2') \<longrightarrow>
        (\<exists>st3. extStorage m2' = Some st3 \<and> map_of (files st3) ?marker = None)"
  proof (intro allI impI)
    fix m2 st2 m2'
    assume "changeFeedID m2 = changeFeedID m" "extStorage m2 = Some st2"
      "map_of (files st2) ?marker \<noteq> None" "preCleanupExtStorage m2 = (Nil, m2')"
    with preCleanup_removes_marker [of m2 st2 m2']
    show "\<exists>st3. extStorage m2' = Some st3 \<and> map_of (files st3) ?marker = None"
      by simp
  qed
  show ?thesis
    by (rule exI [of _ st2], rule exI [of _ "(CallWalkDir, w2) # dels"])
       (intro conjI 1 2 3 4 5 6 7 8)
qed

lemma S5_cleanup: "fst (Cleanup S5_manager) = Nil"
  by (simp add: Cleanup_def deleteAllLogs_def S5_manager_def S5_store_def zeroManager_def
        RemoveFilesIf_def sweepPred_def storage_defs name_defs example_defs Let_def)

lemma S5_restart:
  "changeFeedID S5_restart_manager = changeFeedID S5_manager \<and>
   extStorage S5_restart_manager = extStorage (snd (Cleanup S5_manager)) \<and>
   fst (preCleanupExtStorage S5_restart_manager) = Nil \<and>
   map_option files (extStorage (snd (preCleanupExtStorage S5_restart_manager))) =
     Some [(''cap_default_other_row_7_uuid.log'', ''rows of another feed'')]"
  by (simp add: S5_restart_manager_def S5_manager_def S5_store_def cleanup_defs
        preCleanupExtStorage_def storage_defs name_defs example_defs Let_def)

text \<open>
  \<open>Cleanup\<close> on the store of scenario S5 leaves the marker and the file of the other
  feed; at the next startup of the feed, \<open>preCleanupExtStorage\<close> removes the marker.
\<close>

theorem Cleanup_keeps_marker_witness:
  "extStorage S5_manager = Some S5_store \<and>
   fst (Cleanup S5_manager) = Nil \<and>
   map_option (\<lambda>st. map_of (files st) ''delete_feed'') (extStorage (snd (Cleanup S5_manager)))
     = Some (Some ''D'') \<and>
   map_option files (extStorage (snd (Cleanup S5_manager))) =
     Some [(''cap_default_other_row_7_uuid.log'', ''rows of another feed''),
           (''delete_feed'', ''D'')] \<and>
   extStorage S5_restart_manager = extStorage (snd (Cleanup S5_manager)) \<and>
   fst (preCleanupExtStorage S5_restart_manager) = Nil \<and>
   map_option (\<lambda>st. map_of (files st) ''delete_feed'')
     (extStorage (snd (preCleanupExtStorage S5_restart_manager))) = Some None"
proof -
  have st: "extStorage S5_manager = Some S5_store"
    by (simp add: S5_manager_def zeroManager_def)
  have mk: "getDeletedChangefeedMarker (changeFeedID S5_manager) = ''delete_feed''"
    by (simp add: S5_manager_def zeroManager_def name_defs example_defs)
  have ok: "Cleanup S5_manager = (Nil, snd (Cleanup S5_manager))"
    using S5_cleanup by (simp add: prod_eq_iff)
  have ok2: "preCleanupExtStorage S5_restart_manager =
               (Nil, snd (preCleanupExtStorage S5_restart_manager))"
    using S5_restart by (simp add: prod_eq_iff)
  from Cleanup_keeps_marker [OF st ok, of example_externals]
  obtain st' where t: "extStorage (snd (Cleanup S5_manager)) = Some st'"
      "map_of (files st') (getDeletedChangefeedMarker (changeFeedID S5_manager)) = Some ''D''"
      "\<forall>m2 st2 m2'.
         changeFeedID m2 = changeFeedID S5_manager \<longrightarrow> extStorage m2 = Some st2 \<longrightarrow>
         map_of (files st2) (getDeletedChangefeedMarker (changeFeedID S5_manager)) \<noteq> None \<longrightarrow>
         preCleanupExtStorage m2 = (Nil, m2') \<longrightarrow>
         (\<exists>st3. extStorage m2' = Some st3 \<and>
            map_of (files st3) (getDeletedChangefeedMarker (changeFeedID S5_manager)) = None)"
    by (elim exE conjE)
  from t(1,2) have 1: "map_option (\<lambda>st. map_of (files st) ''delete_feed'')
               (extStorage (snd (Cleanup S5_manager))) = Some (Some ''D'')"
    by (simp add: mk)
  have 2: "map_option files (extStorage (snd (Cleanup S5_manager))) =
     Some [(''cap_default_other_row_7_uuid.log'', ''rows of another feed''),
           (''delete_feed'', ''D'')]"
    by (simp add: S5_manager_def S5_store_def cleanup_defs storage_defs name_defs
          example_defs Let_def)
  have r: "extStorage S5_restart_manager = Some st'"
    using S5_restart t(1) by simp
  from t(3) [rule_format, of S5_restart_manager st' "snd (preCleanupExtStorage S5_restart_manager)"]
    S5_restart r t(2) ok2
  obtain st3 where "extStorage (snd (preCleanupExtStorage S5_restart_manager)) = Some st3"
    "map_of (files st3) ''delete_feed'' = None"
    by (auto simp: mk)
  then have 3: "map_option (\<lambda>st. map_of (files st) ''delete_feed'')
     (extStorage (snd (preCleanupExtStorage S5_restart_manager))) = Some None"
    by simp
  from st S5_cleanup 1 2 S5_restart 3 show ?thesis by simp
qed

subsection \<open>Initialisation on a shared root\<close>


subsection \<open>The run loop of the capture\<close>

lemma Run_loop_result:
  "fst (Run_loop rl now script) = fst (Run_loop rl' now' script)"
proof (induction script arbitrary: rl now rl' now')
  case Nil
  show ?case by simp
next
  case (Cons p rest)
  obtain t a where w: "Wait rl now = (t, a)" by (cases "Wait rl now")
  obtain t' a' where w': "Wait rl' now' = (t', a')" by (cases "Wait rl' now'")
  from Cons.IH [of a "t + runTime p" a' "t' + runTime p"] show ?case
    by (simp add: w w' split_beta Let_def split: option.splits)
qed

lemma Run_Cons:
  "Run (p # rest) =
     (if parentDone p then Some None
      else (case waitResult p of
              Some err \<Rightarrow>
                if Cause err = ContextCanceled then Some None else Some (Trace (Some err))
            | None \<Rightarrow>
                if recoverable (runResult p) then Run rest else Some (Trace (runResult p))))"
proof -
  have "fst (Run_loop rl now rest) = Run rest" for rl now
    unfolding Run_def Run_at_def by (rule Run_loop_result)
  moreover have "Run (p # rest) = fst (Run_loop (NewLimiter (5 / 100) 2 0) 0 (p # rest))"
    unfolding Run_def Run_at_def ..
  ultimately show ?thesis
    by (simp add: split_beta Let_def split: option.splits)
qed

text \<open>
  The limiter keeps its rate and its burst; after \<open>Wait\<close> it holds at most
  \<open>burst - 1\<close> tokens, and never more than the refill since \<open>lastTime\<close> allows.
\<close>

lemma Wait_result:
  assumes w: "Wait rl now = (t, rl')" and l: "limit rl = 1 / 20"
  shows "limit rl' = 1 / 20" and "burst rl' = burst rl" and "lastTime rl' = now"
    and "20 * tokens rl' \<le> 20 * tokens rl + (now - lastTime rl) - 20"
    and "now - 20 * tokens rl' \<le> t"
    and "1 \<le> burst rl \<Longrightarrow> t \<le> now + 20 * (real (burst rl) - 1 - tokens rl')"
proof -
  define tk where "tk = min (real (burst rl)) (tokens rl + (now - lastTime rl) / 20) - 1"
  have e: "Wait rl now =
             (now + (if tk < 0 then - 20 * tk else 0), rl\<lparr>tokens := tk, lastTime := now\<rparr>)"
    by (simp add: Wait_def advance_def Let_def l tk_def)
  with w have t: "t = now + (if tk < 0 then - 20 * tk else 0)"
    and r: "rl' = rl\<lparr>tokens := tk, lastTime := now\<rparr>"
    by simp_all
  have b1: "tk \<le> real (burst rl) - 1"
    and b2: "tk \<le> tokens rl + (now - lastTime rl) / 20 - 1"
    by (simp_all add: tk_def)
  show "limit rl' = 1 / 20" using l by (simp add: r)
  show "burst rl' = burst rl" by (simp add: r)
  show "lastTime rl' = now" by (simp add: r)
  show "20 * tokens rl' \<le> 20 * tokens rl + (now - lastTime rl) - 20"
    using b2 by (simp add: r field_simps)
  show "now - 20 * tokens rl' \<le> t" by (simp add: r t)
  show "t \<le> now + 20 * (real (burst rl) - 1 - tokens rl')" if "1 \<le> burst rl"
    using b1 that by (simp add: r t)
qed

lemma Run_loop_starts:
  "limit rl = 1 / 20 \<Longrightarrow> k < length (snd (Run_loop rl now script)) \<Longrightarrow>
   lastTime rl + 20 * (real k + 1 - tokens rl) \<le> snd (Run_loop rl now script) ! k"
proof (induction script arbitrary: rl now k)
  case Nil
  then show ?case by simp
next
  case (Cons p rest)
  obtain t rl' where w: "Wait rl now = (t, rl')" by (cases "Wait rl now")
  note W = Wait_result [OF w Cons.prems(1)]
  from Cons.prems(2) have run: "\<not> parentDone p" "waitResult p = None"
    by (auto split: if_splits option.splits)
  show ?case
  proof (cases k)
    case 0
    have "snd (Run_loop rl now (p # rest)) ! 0 = t"
      using run w by (simp add: split_beta Let_def)
    with W(4,5) 0 show ?thesis by simp
  next
    case (Suc j)
    with Cons.prems(2) run w have rec: "recoverable (runResult p)"
      by (auto simp: split_beta Let_def split: if_splits)
    with run w have e: "snd (Run_loop rl now (p # rest)) = t # snd (Run_loop rl' (t + runTime p) rest)"
      by (simp add: split_beta Let_def)
    with Cons.prems(2) Suc have j: "j < length (snd (Run_loop rl' (t + runTime p) rest))" by simp
    from Cons.IH [OF W(1) j]
    have "now + 20 * (real j + 1 - tokens rl') \<le> snd (Run_loop rl' (t + runTime p) rest) ! j"
      by (simp add: W(3))
    with W(4) e Suc show ?thesis by simp
  qed
qed

lemma Run_loop_window:
  "limit rl = 1 / 20 \<Longrightarrow> burst rl = 2 \<Longrightarrow> k + 2 < length (snd (Run_loop rl now script)) \<Longrightarrow>
   snd (Run_loop rl now script) ! k + 20 \<le> snd (Run_loop rl now script) ! (k + 2)"
proof (induction script arbitrary: rl now k)
  case Nil
  then show ?case by simp
next
  case (Cons p rest)
  obtain t rl' where w: "Wait rl now = (t, rl')" by (cases "Wait rl now")
  note W = Wait_result [OF w Cons.prems(1)]
  from Cons.prems(3) have run: "\<not> parentDone p" "waitResult p = None"
    by (auto split: if_splits option.splits)
  with Cons.prems(3) w have rec: "recoverable (runResult p)"
    by (auto simp: split_beta Let_def split: if_splits)
  with run w have e: "snd (Run_loop rl now (p # rest)) = t # snd (Run_loop rl' (t + runTime p) rest)"
    by (simp add: split_beta Let_def)
  show ?case
  proof (cases k)
    case 0
    from Cons.prems(3) e 0 have "1 < length (snd (Run_loop rl' (t + runTime p) rest))" by simp
    from Run_loop_starts [OF W(1) this]
    have "now + 20 * (2 - tokens rl') \<le> snd (Run_loop rl' (t + runTime p) rest) ! 1"
      by (simp add: W(3))
    moreover have "t + 20 \<le> now + 20 * (2 - tokens rl')"
      using W(6) Cons.prems(2) by simp
    ultimately show ?thesis using e 0 by simp
  next
    case (Suc j)
    with Cons.prems(3) e have "j + 2 < length (snd (Run_loop rl' (t + runTime p) rest))" by simp
    from Cons.IH [OF W(1) _ this] W(2) Cons.prems(2) e Suc show ?thesis by simp
  qed
qed

text \<open>
  C8. When a pass of the loop of \<open>Run\<close> gets an error from \<open>c.run\<close>: if the cause
  of the error is \<open>ErrCaptureSuicide\<close>, \<open>context.Canceled\<close> or
  \<open>context.DeadlineExceeded\<close>, the loop goes on with its next pass; for any other
  error \<open>Run\<close> returns that error (under one more stack trace).
\<close>

theorem Run_error_classes:
  "\<not> parentDone p \<Longrightarrow> waitResult p = None \<Longrightarrow> runResult p = Some err \<Longrightarrow>
   (Cause err = ErrCaptureSuicide \<or> Cause err = ContextCanceled \<or>
    Cause err = ContextDeadlineExceeded \<longrightarrow> Run (p # rest) = Run rest) \<and>
   (\<not> (Cause err = ErrCaptureSuicide \<or> Cause err = ContextCanceled \<or>
       Cause err = ContextDeadlineExceeded) \<longrightarrow>
    Run (p # rest) = Some (Some (Traced err)) \<and> Cause (Traced err) = Cause err)"
  by (auto simp: Run_Cons recoverable_def Equal_def Trace_def)

theorem Run_error_classes_witness:
  "Run [suicide_pass, fatal_pass] = Run [fatal_pass] \<and>
   Run [fatal_pass] = Some (Some (Traced (Plain ''etcd is down'')))"
proof -
  have s: "\<not> parentDone suicide_pass" "waitResult suicide_pass = None"
    "runResult suicide_pass = Some (Traced ErrCaptureSuicide)"
    by (simp_all add: suicide_pass_def)
  have f: "\<not> parentDone fatal_pass" "waitResult fatal_pass = None"
    "runResult fatal_pass = Some (Plain ''etcd is down'')"
    by (simp_all add: fatal_pass_def)
  from Run_error_classes [OF s, of "[fatal_pass]"] Run_error_classes [OF f, of "[]"]
  show ?thesis by (simp add: ErrCaptureSuicide_def)
qed

text \<open>A script of passes that all end at once in a suicide, step by step.\<close>

lemma suicide_pass_step:
  "Run_loop rl now (suicide_pass # rest) =
     (fst (Run_loop (snd (Wait rl now)) (fst (Wait rl now)) rest),
      fst (Wait rl now) # snd (Run_loop (snd (Wait rl now)) (fst (Wait rl now)) rest))"
  by (simp add: suicide_pass_def recoverable_def Equal_def ErrCaptureSuicide_def split_beta
        Let_def)

lemma Wait_step:
  "Wait \<lparr>limit = l, burst = b, tokens = k, lastTime = s\<rparr> now =
     (now + (if min (real b) (k + (now - s) * l) - 1 < 0
             then - (min (real b) (k + (now - s) * l) - 1) / l else 0),
      \<lparr>limit = l, burst = b, tokens = min (real b) (k + (now - s) * l) - 1, lastTime = now\<rparr>)"
  by (simp add: Wait_def advance_def Let_def)

lemma suicide_starts:
  "0 < l \<Longrightarrow>
   snd (Run_loop (NewLimiter l 2 0) 0 [suicide_pass, suicide_pass, suicide_pass, suicide_pass])
     = [0, 0, 1 / l, 2 / l]"
proof -
  assume l: "0 < l"
  have w1: "Wait \<lparr>limit = l, burst = 2, tokens = 2, lastTime = 0\<rparr> 0 =
              (0, \<lparr>limit = l, burst = 2, tokens = 1, lastTime = 0\<rparr>)"
    by (simp add: Wait_step)
  have w2: "Wait \<lparr>limit = l, burst = 2, tokens = 1, lastTime = 0\<rparr> 0 =
              (0, \<lparr>limit = l, burst = 2, tokens = 0, lastTime = 0\<rparr>)"
    by (simp add: Wait_step)
  have w3: "Wait \<lparr>limit = l, burst = 2, tokens = 0, lastTime = 0\<rparr> 0 =
              (1 / l, \<lparr>limit = l, burst = 2, tokens = - 1, lastTime = 0\<rparr>)"
    by (simp add: Wait_step)
  have w4: "Wait \<lparr>limit = l, burst = 2, tokens = - 1, lastTime = 0\<rparr> (1 / l) =
              (2 / l, \<lparr>limit = l, burst = 2, tokens = - 1, lastTime = 1 / l\<rparr>)"
    using l by (simp add: Wait_step)
  show ?thesis
    by (simp add: NewLimiter_def suicide_pass_step w1 w2 w3 w4 del: Run_loop.simps(2))
qed

text \<open>
  C9, as stated, fails: when every pass ends at once in a suicide, a loop whose limiter
  refills 2 permits per 20 seconds (0.1 per second) enters \<open>c.run\<close> at the seconds 0, 0,
  10 and 20; \<open>Run\<close> enters it at the seconds 0, 0, 20 and 40.
\<close>

theorem Run_limiter_rate_counterexample:
  "snd (Run_loop (NewLimiter (2 / 20) 2 0) 0
          [suicide_pass, suicide_pass, suicide_pass, suicide_pass]) = [0, 0, 10, 20] \<and>
   snd (Run_at 0 [suicide_pass, suicide_pass, suicide_pass, suicide_pass]) = [0, 0, 20, 40]"
  by (simp add: Run_at_def suicide_starts del: Run_loop.simps(2))

text \<open>
  C9, amended. The limiter of the run loop is constructed with a refill rate of 1 permit
  per 20 seconds (0.05 per second) and a burst of 2. So, on every script of passes, when
  \<open>Run\<close> is entered at the time \<open>t0\<close>, the k-th entry into \<open>c.run\<close> (counted from
  0) comes no earlier than \<open>20 * (k - 1)\<close> seconds after \<open>t0\<close>, and any three
  entries in a row span at least 20 seconds: the capture restarts at most 2 times within
  20 seconds, and once per 20 seconds in the long run.
\<close>

theorem Run_limiter_rate:
  "Run_at t0 script = Run_loop (NewLimiter (1 / 20) 2 t0) t0 script \<and>
   (\<forall>k < length (snd (Run_at t0 script)).
      t0 + 20 * (real k - 1) \<le> snd (Run_at t0 script) ! k) \<and>
   (\<forall>k. k + 2 < length (snd (Run_at t0 script)) \<longrightarrow>
      snd (Run_at t0 script) ! k + 20 \<le> snd (Run_at t0 script) ! (k + 2))"
proof (intro conjI allI impI)
  let ?rl = "NewLimiter (1 / 20) 2 t0"
  have l: "limit ?rl = 1 / 20" and b: "burst ?rl = 2" by (simp_all add: NewLimiter_def)
  show eq: "Run_at t0 script = Run_loop ?rl t0 script" by (simp add: Run_at_def)
  show "t0 + 20 * (real k - 1) \<le> snd (Run_at t0 script) ! k"
    if "k < length (snd (Run_at t0 script))" for k
    using Run_loop_starts [OF l, of k t0 script] that
    by (simp add: eq NewLimiter_def)
  show "snd (Run_at t0 script) ! k + 20 \<le> snd (Run_at t0 script) ! (k + 2)"
    if "k + 2 < length (snd (Run_at t0 script))" for k
    using Run_loop_window [OF l b, of k t0 script] that by (simp add: eq)
qed

theorem Run_limiter_rate_witness:
  "snd (Run_at 0 [suicide_pass, suicide_pass, suicide_pass, suicide_pass]) = [0, 0, 20, 40] \<and>
   0 + 20 * (real 3 - 1) \<le>
     snd (Run_at 0 [suicide_pass, suicide_pass, suicide_pass, suicide_pass]) ! 3 \<and>
   snd (Run_at 0 [suicide_pass, suicide_pass, suicide_pass, suicide_pass]) ! 1 + 20 \<le>
     snd (Run_at 0 [suicide_pass, suicide_pass, suicide_pass, suicide_pass]) ! (1 + 2)"
proof -
  have e: "snd (Run_at 0 [suicide_pass, suicide_pass, suicide_pass, suicide_pass])
             = [0, 0, 20, 40]"
    by (simp add: Run_at_def suicide_starts del: Run_loop.simps(2))
  note R = Run_limiter_rate [of 0 "[suicide_pass, suicide_pass, suicide_pass, suicide_pass]"]
  from R [THEN conjunct2, THEN conjunct1, rule_format, of 3]
    R [THEN conjunct2, THEN conjunct2, rule_format, of 1] e
  show ?thesis by simp
qed

end
